theory Spec2Isabelle
  imports Complex_Main
begin

text \<open>
  A model of \<open>main.py\<close>: the \<open>TradingBot\<close> object with its liveness, readiness and metrics
  probes, the startup and shutdown sequence of \<open>main()\<close>, the signal handler,
  \<open>create_app()\<close> with its initialisation task, and the module body. A run is a function
  from the outcomes of the calls into other modules (configuration, handler, preloader,
  caches, metrics, the web server) to the final bot, the trace of what happened and the
  way the run ended. \<open>sys\<close>, \<open>signal\<close> and \<open>asyncio\<close> follow their documented behaviour.
\<close>

section \<open>Python values used by \<open>main.py\<close>\<close>

text \<open>
  The exceptions that the module and its collaborators can raise. \<open>KeyboardInterrupt\<close>,
  \<open>SystemExit\<close> and \<open>CancelledError\<close> derive from \<open>BaseException\<close> only; every other
  constructor stands for a subclass of \<open>Exception\<close>. \<open>SecurityError\<close> is imported from
  \<open>security_config\<close> and is taken to derive from \<open>Exception\<close>. \<open>asyncio.TimeoutError\<close> is
  \<open>TimeoutError\<close>.
\<close>

datatype exn =
    ValueError
  | SecurityError
  | TimeoutError
  | AttributeError
  | KeyError
  | TypeError
  | OSError
  | RuntimeError string
  | OtherException
  | KeyboardInterrupt
  | SystemExit int
  | CancelledError

text \<open>\<open>isinstance(e, Exception)\<close>: what an \<open>except Exception\<close> clause catches.\<close>

fun is_Exception :: "exn \<Rightarrow> bool" where
  "is_Exception KeyboardInterrupt = False"
| "is_Exception (SystemExit c) = False"
| "is_Exception CancelledError = False"
| "is_Exception ValueError = True"
| "is_Exception SecurityError = True"
| "is_Exception TimeoutError = True"
| "is_Exception AttributeError = True"
| "is_Exception KeyError = True"
| "is_Exception TypeError = True"
| "is_Exception OSError = True"
| "is_Exception (RuntimeError m) = True"
| "is_Exception OtherException = True"

text \<open>
  Values that collaborators hand back to the metrics endpoint. \<open>PyObject\<close> is any Python
  object that \<open>json.dumps\<close> rejects.
\<close>

datatype json =
    JBool bool
  | JNum real
  | JStr string
  | JDict "(string \<times> json) list"
  | PyObject

type_synonym dict = "(string \<times> json) list"

text \<open>\<open>d[k] = v\<close> on a Python dict: an existing key keeps its place, a new key goes last.\<close>

fun dict_set :: "dict \<Rightarrow> string \<Rightarrow> json \<Rightarrow> dict" where
  "dict_set [] k v = [(k, v)]"
| "dict_set ((k', v') # d) k v =
     (if k' = k then (k, v) # d else (k', v') # dict_set d k v)"

text \<open>\<open>{**a, **b}\<close>: the entries of \<open>b\<close> are stored into \<open>a\<close> one after the other.\<close>

definition dict_merge :: "dict \<Rightarrow> dict \<Rightarrow> dict" where
  "dict_merge a b = fold (\<lambda>(k, v) d. dict_set d k v) b a"

definition dict_keys :: "dict \<Rightarrow> string set" where
  "dict_keys d = fst ` set d"

text \<open>\<open>**x\<close> in a dict display raises \<open>TypeError\<close> unless \<open>x\<close> is a mapping.\<close>

definition as_mapping :: "json \<Rightarrow> exn + dict" where
  "as_mapping j = (case j of JDict kvs \<Rightarrow> Inr kvs | _ \<Rightarrow> Inl TypeError)"

text \<open>\<open>x[k]\<close> for a string key: \<open>KeyError\<close> on a missing key, \<open>TypeError\<close> on a non-dict.\<close>

definition subscript :: "json \<Rightarrow> string \<Rightarrow> exn + json" where
  "subscript j k =
     (case j of
        JDict kvs \<Rightarrow> (case map_of kvs k of None \<Rightarrow> Inl KeyError | Some v \<Rightarrow> Inr v)
      | _ \<Rightarrow> Inl TypeError)"

text \<open>Whether \<open>json.dumps\<close> accepts the value (it raises \<open>TypeError\<close> otherwise).\<close>

fun serialisable :: "json \<Rightarrow> bool" where
  "serialisable (JDict kvs) = list_all (\<lambda>p. serialisable (snd p)) kvs"
| "serialisable PyObject = False"
| "serialisable (JBool b) = True"
| "serialisable (JNum r) = True"
| "serialisable (JStr s) = True"

section \<open>The \<open>TradingBot\<close> object\<close>

datatype handler = TelegramHandler
datatype runner = AppRunner nat
datatype config = Config
datatype security = SecurityConfig
datatype limiter = RateLimiter
datatype validator = InputValidator

text \<open>
  The attributes of a \<open>TradingBot\<close>. \<open>None\<close> is Python's \<open>None\<close>, except for \<open>start_time\<close>,
  which \<open>__init__\<close> does not create: there \<open>None\<close> is a missing attribute. Objects are
  truthy; \<open>None\<close> is falsy.
\<close>

record bot =
  telegram_handler :: "handler option"
  health_server :: "runner option"
  is_ready :: bool
  config :: "config option"
  security_config :: "security option"
  rate_limiter :: "limiter option"
  input_validator :: "validator option"
  start_time :: "real option"

section \<open>The probes\<close>

text \<open>\<open>web.Response(text, status)\<close> and \<open>web.json_response(data, status)\<close>.\<close>

datatype response =
    Response string nat
  | JsonResponse dict nat

text \<open>The probes ignore the request; it is kept as an argument of any type.\<close>

definition health_check :: "bot \<Rightarrow> 'r \<Rightarrow> response" where
  "health_check self request = Response ''OK'' 200"

definition readiness_check :: "bot \<Rightarrow> 'r \<Rightarrow> response" where
  "readiness_check self request =
     (if is_ready self \<and> telegram_handler self \<noteq> None
      then Response ''Ready'' 200
      else Response ''Not Ready'' 503)"

text \<open>
  What the metrics endpoint reads from outside the bot: the clock, and the results of
  \<open>metrics.get_metrics_summary()\<close> and \<open>get_cache_stats()\<close>, each a value or a raised
  exception.
\<close>

record probe_env =
  time_now :: real
  get_metrics_summary :: "exn + json"
  get_cache_stats :: "exn + json"

text \<open>
  The \<open>try\<close> body of \<open>metrics_endpoint\<close>, statement by statement; \<open>Inl\<close> is the exception
  that leaves the body.
\<close>

definition metrics_body :: "bot \<Rightarrow> probe_env \<Rightarrow> exn + response" where
  "metrics_body self pe =
     (case start_time self of
        None \<Rightarrow> Inl AttributeError
      | Some t0 \<Rightarrow>
          let bot_metrics =
                [(''uptime_seconds'', JNum (time_now pe - t0)),
                 (''ready'', JBool (is_ready self)),
                 (''telegram_handler_status'',
                    JStr (if telegram_handler self \<noteq> None then ''active'' else ''inactive''))]
          in (case get_metrics_summary pe of
                Inl e \<Rightarrow> Inl e
              | Inr prometheus_metrics \<Rightarrow>
                  (case get_cache_stats pe of
                     Inl e \<Rightarrow> Inl e
                   | Inr cache_stats \<Rightarrow>
                       (case as_mapping prometheus_metrics of
                          Inl e \<Rightarrow> Inl e
                        | Inr pm \<Rightarrow>
                            let combined_metrics =
                                  dict_set (dict_merge bot_metrics pm) ''cache_stats'' cache_stats
                            in if serialisable (JDict combined_metrics)
                               then Inr (JsonResponse combined_metrics 200)
                               else Inl TypeError))))"

text \<open>
  \<open>metrics_endpoint\<close>: \<open>except Exception\<close> turns a failure of the body into the 500
  response; an exception outside \<open>Exception\<close> leaves the coroutine.
\<close>

definition metrics_endpoint :: "bot \<Rightarrow> probe_env \<Rightarrow> 'r \<Rightarrow> exn + response" where
  "metrics_endpoint self pe request =
     (case metrics_body self pe of
        Inr resp \<Rightarrow> Inr resp
      | Inl e \<Rightarrow>
          if is_Exception e
          then Inr (JsonResponse [(''error'', JStr ''Metrics unavailable'')] 500)
          else Inl e)"

section \<open>Effects: traces, exceptions and sequencing\<close>

datatype level = INFO | WARNING | ERROR

datatype task = PreloadTask | InitBotTask | HandlerRunTask | MainTask

datatype signum = SIGINT | SIGTERM

text \<open>
  What a run leaves behind, in order. \<open>Log\<close> is a call of \<open>logger\<close> (the fixed part of
  the message, without emoji and interpolated values); \<open>SystemEvent\<close> and \<open>SecurityEvent\<close>
  are \<open>secure_logger.log_system_event\<close> and \<open>log_security_event\<close> with the event's name.
  An event of a collaborator's call records that the call returned; a call that raised
  leaves \<open>Failed\<close> of that event. \<open>ReadyFlagSet\<close> is the assignment \<open>is_ready = True\<close>.
  Logging itself is taken not to raise.
\<close>

datatype event =
    Log level string
  | SystemEvent string
  | SecurityEvent string
  | ValidateRequiredConfigs
  | NewRateLimiter
  | NewInputValidator
  | CreateTask task
  | StartMetricsServer nat
  | SetupPeriodicCleanup
  | NewApplication
  | AddRoute string
  | RunnerSetup
  | SiteStart nat
  | NewTelegramHandler
  | WaitFor task nat
  | CancelTask task
  | ReadyFlagSet
  | SetReadyStatus bool
  | GetCacheStats
  | HandlerRun
  | RunnerCleanup
  | RunnerStop
  | SysExit int
  | SignalHandlerSet signum
  | Failed event

text \<open>
  How a piece of code ends: it returns a value, raises, or never comes back (\<open>Pending\<close>:
  an \<open>await\<close> that does not complete).
\<close>

datatype 'a flow = Return 'a | Raise exn | Pending

type_synonym ('s, 'a) action = "'s \<Rightarrow> 's \<times> event list \<times> 'a flow"

definition state_of :: "'s \<times> event list \<times> 'a flow \<Rightarrow> 's" where
  "state_of x = fst x"

definition trace_of :: "'s \<times> event list \<times> 'a flow \<Rightarrow> event list" where
  "trace_of x = fst (snd x)"

definition flow_of :: "'s \<times> event list \<times> 'a flow \<Rightarrow> 'a flow" where
  "flow_of x = snd (snd x)"

text \<open>\<open>x = a; f(x)\<close>: the second part runs only when the first returns.\<close>

definition and_then :: "('s, 'a) action \<Rightarrow> ('a \<Rightarrow> ('s, 'b) action) \<Rightarrow> ('s, 'b) action" where
  "and_then a f s =
     (case a s of
        (s', t, Return x) \<Rightarrow> (case f x s' of (s'', t', r) \<Rightarrow> (s'', t @ t', r))
      | (s', t, Raise e) \<Rightarrow> (s', t, Raise e)
      | (s', t, Pending) \<Rightarrow> (s', t, Pending))"

definition skip :: "('s, unit) action" where
  "skip s = (s, [], Return ())"

text \<open>A sequence of statements.\<close>

fun block :: "('s, unit) action list \<Rightarrow> ('s, unit) action" where
  "block [] = skip"
| "block (a # as) = and_then a (\<lambda>u. block as)"

definition emit :: "event list \<Rightarrow> ('s, unit) action" where
  "emit es s = (s, es, Return ())"

definition assign :: "('s \<Rightarrow> 's) \<Rightarrow> ('s, unit) action" where
  "assign f s = (f s, [], Return ())"

definition raise :: "exn \<Rightarrow> ('s, 'a) action" where
  "raise e s = (s, [], Raise e)"

text \<open>A call of a collaborator whose outcome is given: \<open>None\<close> returns, \<open>Some e\<close> raises.\<close>

definition call :: "event \<Rightarrow> exn option \<Rightarrow> ('s, unit) action" where
  "call ev outcome s =
     (case outcome of
        None \<Rightarrow> (s, [ev], Return ())
      | Some e \<Rightarrow> (s, [Failed ev], Raise e))"

text \<open>\<open>sys.exit(c)\<close> raises \<open>SystemExit(c)\<close>.\<close>

definition sys_exit :: "int \<Rightarrow> ('s, 'a) action" where
  "sys_exit c s = (s, [SysExit c], Raise (SystemExit c))"

text \<open>
  \<open>try: body except ...\<close>: \<open>handlers e\<close> is the first clause that matches \<open>e\<close>, if any;
  it runs in the state the body left.
\<close>

definition try_except ::
  "('s, 'a) action \<Rightarrow> (exn \<Rightarrow> ('s, 'a) action option) \<Rightarrow> ('s, 'a) action" where
  "try_except body handlers s =
     (case body s of
        (s', t, Raise e) \<Rightarrow>
          (case handlers e of
             None \<Rightarrow> (s', t, Raise e)
           | Some h \<Rightarrow> (case h s' of (s'', t', r) \<Rightarrow> (s'', t @ t', r)))
      | (s', t, Return x) \<Rightarrow> (s', t, Return x)
      | (s', t, Pending) \<Rightarrow> (s', t, Pending))"

text \<open>
  \<open>try: body finally: fin\<close>: \<open>fin\<close> runs when the body returns or raises; when \<open>fin\<close>
  itself raises, that exception replaces the body's outcome.
\<close>

definition try_finally :: "('s, 'a) action \<Rightarrow> ('s, unit) action \<Rightarrow> ('s, 'a) action" where
  "try_finally body fin s =
     (case body s of
        (s', t, Pending) \<Rightarrow> (s', t, Pending)
      | (s', t, r) \<Rightarrow>
          (case fin s' of
             (s'', t', Return u) \<Rightarrow> (s'', t @ t', r)
           | (s'', t', Raise e) \<Rightarrow> (s'', t @ t', Raise e)
           | (s'', t', Pending) \<Rightarrow> (s'', t @ t', Pending)))"

section \<open>The collaborators\<close>

text \<open>
  What the preload task does once \<open>asyncio.wait_for\<close> has cancelled it: it ends
  cancelled, it returns a result in spite of the cancellation, it raises another
  exception, or it never ends.
\<close>

datatype cancel_result = Cancelled | ReturnedAnyway | RaisedInstead exn | NeverEnds

text \<open>
  What \<open>asyncio.wait_for(preload_task, timeout=30.0)\<close> meets: the task completes or
  fails before the timeout, or the timeout expires first.
\<close>

datatype wait_result = Completed | TaskFailed exn | TimedOut cancel_result

text \<open>What \<open>await bot.telegram_handler.run()\<close> does: it may never return.\<close>

datatype completion = Blocks | Done | Fails exn

text \<open>The \<open>PORT\<close> environment variable: absent, a decimal number, or text that \<open>int\<close> rejects.\<close>

datatype port_setting = Unset | Digits nat | Malformed

text \<open>
  One run's outcomes of the calls that \<open>main.py\<close> makes into other modules, in the order
  of first use.
\<close>

record world =
  time_at_start :: real
  validate_required_configs :: "exn option"
  config_security :: "exn option"
  new_rate_limiter :: "exn option"
  new_input_validator :: "exn option"
  start_metrics_server :: "exn option"
  setup_periodic_cleanup :: "exn option"
  runner_setup :: "exn option"
  port_var :: port_setting
  site_start :: "exn option"
  new_telegram_handler :: "exn option"
  preload_wait :: wait_result
  set_ready_status :: "exn option"
  startup_cache_stats :: "exn + json"
  max_connections :: "exn option"
  handler_run :: completion
  runner_cleanup :: "exn option"

section \<open>\<open>TradingBot\<close> methods\<close>

text \<open>\<open>TradingBot()\<close>: the new object and what \<open>__init__\<close> logs.\<close>

definition TradingBot :: "bot \<times> event list" where
  "TradingBot =
     (\<lparr>telegram_handler = None, health_server = None, is_ready = False, config = None,
       security_config = None, rate_limiter = None, input_validator = None,
       start_time = None\<rparr>,
      [Log INFO ''Trading Bot initializing...'', SystemEvent ''bot_initialization''])"

text \<open>An attribute read that may raise, without an event of its own.\<close>

definition getattr :: "exn option \<Rightarrow> ('s, unit) action" where
  "getattr outcome s = (case outcome of None \<Rightarrow> (s, [], Return ()) | Some e \<Rightarrow> (s, [], Raise e))"

definition validate_try :: "world \<Rightarrow> (bot, bool) action" where
  "validate_try w =
     and_then
       (block
         [call ValidateRequiredConfigs (validate_required_configs w),
          assign (\<lambda>self. self\<lparr>config := Some Config\<rparr>),
          getattr (config_security w),
          assign (\<lambda>self. self\<lparr>security_config := Some SecurityConfig\<rparr>),
          call NewRateLimiter (new_rate_limiter w),
          assign (\<lambda>self. self\<lparr>rate_limiter := Some RateLimiter\<rparr>),
          call NewInputValidator (new_input_validator w),
          assign (\<lambda>self. self\<lparr>input_validator := Some InputValidator\<rparr>),
          emit [Log INFO ''Environment validation successful''],
          emit [SystemEvent ''environment_validation'']])
       (\<lambda>u self. (self, [], Return True))"

definition validate_environment :: "world \<Rightarrow> (bot, bool) action" where
  "validate_environment w =
     try_except (validate_try w)
       (\<lambda>e. if e = ValueError \<or> e = SecurityError
            then Some (and_then
                   (emit [Log ERROR ''Environment validation failed'',
                          SecurityEvent ''environment_validation_failed''])
                   (\<lambda>u self. (self, [], Return False)))
            else None)"

text \<open>
  \<open>self.health_server.stop()\<close>: the health server is the \<open>web.AppRunner\<close> that
  \<open>start_health_server\<close> returns, and an \<open>AppRunner\<close> has no attribute \<open>stop\<close> (it has
  \<open>setup\<close>, \<open>shutdown\<close> and \<open>cleanup\<close>), so the call raises \<open>AttributeError\<close>.
\<close>

definition runner_stop :: "(bot, unit) action" where
  "runner_stop = call RunnerStop (Some AttributeError)"

text \<open>
  The handler that \<open>setup_signal_handlers\<close> defines. It reads \<open>self.health_server\<close> at
  the time of the signal.
\<close>

definition signal_handler :: "(bot, unit) action" where
  "signal_handler =
     block
       [emit [Log INFO ''Received shutdown signal, stopping bot...''],
        (\<lambda>self. if health_server self \<noteq> None
                then runner_stop self
                else skip self),
        sys_exit 0]"

text \<open>
  \<open>setup_signal_handlers\<close> registers that handler for \<open>SIGINT\<close> and \<open>SIGTERM\<close>. Neither
  \<open>main\<close> nor \<open>create_app\<close> calls it.
\<close>

definition setup_signal_handlers :: "(bot, unit) action" where
  "setup_signal_handlers = emit [SignalHandlerSet SIGINT, SignalHandlerSet SIGTERM]"

text \<open>\<open>int(os.environ.get('PORT', 8080))\<close>.\<close>

definition read_port :: "port_setting \<Rightarrow> exn + nat" where
  "read_port p = (case p of Unset \<Rightarrow> Inr 8080 | Digits n \<Rightarrow> Inr n | Malformed \<Rightarrow> Inl ValueError)"

definition start_health_server :: "world \<Rightarrow> (bot, runner) action" where
  "start_health_server w =
     and_then
       (block
         [emit [NewApplication, AddRoute ''/health'', AddRoute ''/ready'',
                AddRoute ''/metrics'', AddRoute ''/''],
          call RunnerSetup (runner_setup w)])
       (\<lambda>u. case read_port (port_var w) of
              Inl e \<Rightarrow> raise e
            | Inr port \<Rightarrow>
                and_then
                  (block
                    [call (SiteStart port) (site_start w),
                     emit [Log INFO ''Health check server started'']])
                  (\<lambda>u self. (self, [], Return (AppRunner port))))"

section \<open>\<open>main()\<close>\<close>

text \<open>Lines 147 to 150: a failed validation ends in \<open>sys.exit(1)\<close>.\<close>

definition check_environment :: "world \<Rightarrow> (bot, unit) action" where
  "check_environment w =
     and_then (validate_environment w)
       (\<lambda>ok. if \<not> ok
             then block
                    [emit [Log ERROR ''Environment validation failed, exiting...'',
                           SecurityEvent ''startup_failed''],
                     sys_exit 1]
             else skip)"

text \<open>
  \<open>asyncio.wait_for(task, timeout)\<close> on a task that is not shielded. A task that completes
  or fails in time gives its result or its exception. When the timeout expires first,
  \<open>wait_for\<close> cancels the task and waits until the task has ended: it raises
  \<open>TimeoutError\<close> when the task ended cancelled (with \<open>CancelledError\<close>), returns the
  result when the task returned one all the same, passes on any other exception of the
  task, and does not return while the task does not end.
\<close>

definition asyncio_wait_for :: "task \<Rightarrow> nat \<Rightarrow> wait_result \<Rightarrow> ('s, unit) action" where
  "asyncio_wait_for tk secs outcome s =
     (case outcome of
        Completed \<Rightarrow> (s, [WaitFor tk secs], Return ())
      | TaskFailed e \<Rightarrow> (s, [Failed (WaitFor tk secs)], Raise e)
      | TimedOut Cancelled \<Rightarrow>
          (s, [CancelTask tk, Failed (WaitFor tk secs)], Raise TimeoutError)
      | TimedOut ReturnedAnyway \<Rightarrow> (s, [CancelTask tk, WaitFor tk secs], Return ())
      | TimedOut (RaisedInstead e) \<Rightarrow>
          (s, [CancelTask tk, Failed (WaitFor tk secs)],
           Raise (if e = CancelledError then TimeoutError else e))
      | TimedOut NeverEnds \<Rightarrow> (s, [CancelTask tk], Pending))"

text \<open>Lines 170 to 179.\<close>

definition await_preload :: "world \<Rightarrow> (bot, unit) action" where
  "await_preload w =
     try_except
       (block
         [asyncio_wait_for PreloadTask 30 (preload_wait w),
          emit [Log INFO ''Preloading completed successfully'',
                SystemEvent ''preloading_completed'']])
       (\<lambda>e. if e = TimeoutError
            then Some (emit [Log WARNING ''Preloading timed out, continuing startup'',
                             SystemEvent ''preloading_timeout''])
            else if is_Exception e
            then Some (emit [Log WARNING ''Preloading failed, continuing startup'',
                             SystemEvent ''preloading_failed''])
            else None)"

text \<open>Lines 152 to 167: from the first concurrent task to the created handler.\<close>

definition startup_steps :: "world \<Rightarrow> (bot, unit) action list" where
  "startup_steps w =
     [emit [Log INFO ''Starting performance optimizations...''],
      emit [CreateTask PreloadTask],
      call (StartMetricsServer 9090) (start_metrics_server w),
      call SetupPeriodicCleanup (setup_periodic_cleanup w),
      and_then (start_health_server w) (\<lambda>r. assign (\<lambda>self. self\<lparr>health_server := Some r\<rparr>)),
      call NewTelegramHandler (new_telegram_handler w),
      assign (\<lambda>self. self\<lparr>telegram_handler := Some TelegramHandler\<rparr>),
      emit [Log INFO ''TelegramHandler created successfully'',
            SystemEvent ''telegram_handler_initialized'']]"

text \<open>Lines 186 and 187: the log line reads \<open>cache_stats['performance_cache']['entries']\<close>.\<close>

definition log_cache_stats :: "world \<Rightarrow> (bot, unit) action" where
  "log_cache_stats w =
     (case startup_cache_stats w of
        Inl e \<Rightarrow> call GetCacheStats (Some e)
      | Inr cache_stats \<Rightarrow>
          and_then (call GetCacheStats None)
            (\<lambda>u. case subscript cache_stats ''performance_cache'' of
                   Inl e \<Rightarrow> raise e
                 | Inr pc \<Rightarrow>
                     (case subscript pc ''entries'' of
                        Inl e \<Rightarrow> raise e
                      | Inr n \<Rightarrow> emit [Log INFO ''Cache initialized''])))"

text \<open>Line 199, \<open>await bot.telegram_handler.run()\<close>.\<close>

definition await_run :: "world \<Rightarrow> (bot, unit) action" where
  "await_run w self =
     (case handler_run w of
        Blocks \<Rightarrow> (self, [], Pending)
      | Done \<Rightarrow> (self, [HandlerRun], Return ())
      | Fails e \<Rightarrow> (self, [Failed HandlerRun], Raise e))"

text \<open>The assignment \<open>is_ready = True\<close> (lines 182 and 251).\<close>

definition mark_ready :: "(bot, unit) action" where
  "mark_ready self = (self\<lparr>is_ready := True\<rparr>, [ReadyFlagSet], Return ())"

text \<open>Lines 183 to 199: from the report to the metrics collector to the handler's run loop.\<close>

definition serve_steps :: "world \<Rightarrow> (bot, unit) action list" where
  "serve_steps w =
     [call (SetReadyStatus True) (set_ready_status w),
      log_cache_stats w,
      emit [Log INFO ''Trading bot started successfully with performance optimizations and security!'',
            Log INFO ''Health server: http://localhost:8080/health'',
            Log INFO ''Metrics server: http://localhost:9090''],
      getattr (max_connections w),
      emit [Log INFO ''Connection pool'',
            Log INFO ''Security features: Rate limiting, Input validation, Secure logging, Session management'',
            Log INFO ''Bot is ready to serve requests'',
            SystemEvent ''bot_startup_complete''],
      await_run w]"

definition main_try :: "world \<Rightarrow> (bot, unit) action" where
  "main_try w =
     block
       ([emit [Log INFO ''Starting AI Trading Bot...'', SystemEvent ''bot_startup''],
         check_environment w]
        @ startup_steps w @ [await_preload w, mark_ready] @ serve_steps w)"

text \<open>The two \<open>except\<close> clauses of \<open>main\<close>, in the order of the source.\<close>

definition main_except :: "exn \<Rightarrow> (bot, unit) action option" where
  "main_except e =
     (if e = KeyboardInterrupt
      then Some (emit [Log INFO ''Bot stopped by user'', SystemEvent ''bot_shutdown_user''])
      else if is_Exception e
      then Some (block [emit [Log ERROR ''Bot crashed'', SecurityEvent ''bot_crash''],
                        sys_exit 1])
      else None)"

text \<open>The \<open>finally\<close> clause of \<open>main\<close>.\<close>

definition main_finally :: "world \<Rightarrow> (bot, unit) action" where
  "main_finally w =
     block
       [(\<lambda>self. if health_server self \<noteq> None
                then block
                       [call RunnerCleanup (runner_cleanup w),
                        emit [Log INFO ''Health server stopped'',
                              SystemEvent ''health_server_stopped'']] self
                else skip self),
        emit [SystemEvent ''bot_shutdown_complete'']]"

text \<open>\<open>main\<close> from its \<open>try\<close> statement on, for a given bot object.\<close>

definition main_from :: "world \<Rightarrow> (bot, unit) action" where
  "main_from w = try_finally (try_except (main_try w) main_except) (main_finally w)"

text \<open>Lines 139 and 140: the bot that \<open>main\<close> and \<open>create_app\<close> start from.\<close>

definition new_bot :: "world \<Rightarrow> bot" where
  "new_bot w = (fst TradingBot)\<lparr>start_time := Some (time_at_start w)\<rparr>"

definition main :: "world \<Rightarrow> bot \<times> event list \<times> unit flow" where
  "main w =
     (case main_from w (new_bot w) of
        (self, t, r) \<Rightarrow> (self, snd TradingBot @ t, r))"

section \<open>Signals\<close>

text \<open>
  Whether the process whose trace so far is \<open>t\<close> has registered the handler for the
  signal: only \<open>setup_signal_handlers\<close> does that.
\<close>

definition handles :: "event list \<Rightarrow> signum \<Rightarrow> bool" where
  "handles t sg = (SignalHandlerSet sg \<in> set t)"


section \<open>\<open>create_app()\<close> and the module body\<close>

datatype application = Application "string list"

record globals =
  app :: "application option"
  bot_instance :: "bot option"

definition initial_globals :: globals where
  "initial_globals = \<lparr>app = None, bot_instance = None\<rparr>"

text \<open>\<open>asyncio.create_task\<close> raises \<open>RuntimeError\<close> when no event loop is running.\<close>

definition asyncio_create_task :: "bool \<Rightarrow> task \<Rightarrow> ('s, unit) action" where
  "asyncio_create_task loop_running tk =
     call (CreateTask tk)
       (if loop_running then None else Some (RuntimeError ''no running event loop''))"

text \<open>Lines 239 to 260, the coroutine that \<open>create_app\<close> schedules.\<close>

definition init_bot :: "world \<Rightarrow> (bot, unit) action" where
  "init_bot w =
     try_except
       (and_then (validate_environment w)
          (\<lambda>ok. if \<not> ok
                then emit [Log ERROR ''Environment validation failed'']
                else block
                       [call (StartMetricsServer 9090) (start_metrics_server w),
                        call SetupPeriodicCleanup (setup_periodic_cleanup w),
                        call NewTelegramHandler (new_telegram_handler w),
                        assign (\<lambda>self. self\<lparr>telegram_handler := Some TelegramHandler\<rparr>),
                        mark_ready,
                        call (SetReadyStatus True) (set_ready_status w),
                        emit [Log INFO ''Bot initialized successfully for web deployment''],
                        asyncio_create_task True HandlerRunTask]))
       (\<lambda>e. if is_Exception e
            then Some (emit [Log ERROR ''Bot initialization failed''])
            else None)"

text \<open>
  \<open>create_app\<close>, given whether an event loop is running at the call. The globals are
  assigned before the task is scheduled.
\<close>

definition create_app :: "world \<Rightarrow> bool \<Rightarrow> (globals, application) action" where
  "create_app w loop_running g =
     (case app g of
        Some a \<Rightarrow> (g, [], Return a)
      | None \<Rightarrow>
          let routes = [''/health'', ''/ready'', ''/metrics'', ''/''];
              a = Application routes;
              g' = \<lparr>app = Some a, bot_instance = Some (new_bot w)\<rparr>
          in and_then
               (block [emit ([NewApplication] @ snd TradingBot @ map AddRoute routes),
                       asyncio_create_task loop_running InitBotTask])
               (\<lambda>u s. (s, [], Return a)) g')"

text \<open>
  The module served as a web application: \<open>create_app\<close> is called with a running loop,
  and the loop then runs the scheduled \<open>init_bot\<close> on \<open>bot_instance\<close>. The second
  component is how that task ended, when it ran.
\<close>

definition web_deployment ::
  "world \<Rightarrow> globals \<Rightarrow> (globals \<times> event list \<times> application flow) \<times> unit flow option" where
  "web_deployment w g =
     (case create_app w True g of
        (g', t, r) \<Rightarrow>
          (case (app g, bot_instance g') of
             (None, Some self) \<Rightarrow>
               (case init_bot w self of
                  (self', t', r') \<Rightarrow>
                    ((g'\<lparr>bot_instance := Some self'\<rparr>, t @ t', r), Some r'))
           | _ \<Rightarrow> ((g', t, r), None)))"

text \<open>How the interpreter ends on an exception that nothing caught.\<close>

datatype status = Exited int | Interrupted | Running

fun uncaught :: "exn \<Rightarrow> status" where
  "uncaught (SystemExit c) = Exited c"
| "uncaught KeyboardInterrupt = Interrupted"
| "uncaught e = Exited 1"

fun has_prefix :: "string \<Rightarrow> string \<Rightarrow> bool" where
  "has_prefix [] s = True"
| "has_prefix (c # cs) [] = False"
| "has_prefix (c # cs) (d # ds) = (c = d \<and> has_prefix cs ds)"

text \<open>\<open>needle in hay\<close> for strings.\<close>

fun contains :: "string \<Rightarrow> string \<Rightarrow> bool" where
  "contains needle [] = (needle = [])"
| "contains needle (c # cs) = (has_prefix needle (c # cs) \<or> contains needle cs)"

text \<open>
  Line 287, \<open>app = create_app()\<close>, reached by the module body when nothing was raised
  before: it runs outside any event loop. \<open>t\<close> is the trace so far.
\<close>

definition module_tail :: "world \<Rightarrow> event list \<Rightarrow> event list \<times> status" where
  "module_tail w t =
     (case create_app w False initial_globals of
        (g, t', Raise e) \<Rightarrow> (t @ t', uncaught e)
      | (g, t', Pending) \<Rightarrow> (t @ t', Running)
      | (g, t', Return a) \<Rightarrow> (t @ t', Exited 0))"

text \<open>
  The module run as \<open>python main.py\<close>, from line 267 to the end. No event loop is running
  when the module body executes, so line 277 runs \<open>main\<close> to its end with \<open>asyncio.run\<close>,
  which passes on what \<open>main\<close> raises. The \<open>except RuntimeError\<close> clause calls
  \<open>asyncio.create_task\<close> outside a loop or re-raises. When nothing is left raised, the
  module body goes on to line 287.
\<close>

definition script :: "world \<Rightarrow> event list \<times> status" where
  "script w =
     (case main w of
        (self, t, Pending) \<Rightarrow> (t, Running)
      | (self, t, Raise e) \<Rightarrow>
          (case e of
             RuntimeError m \<Rightarrow>
               if contains ''cannot be called from a running event loop'' m
               then (case block [emit [Log INFO ''Already in event loop, creating task...''],
                                 asyncio_create_task False MainTask] () of
                       (u, t', Raise e') \<Rightarrow> (t @ t', uncaught e')
                     | (u, t', Pending) \<Rightarrow> (t @ t', Running)
                     | (u, t', Return v) \<Rightarrow> module_tail w (t @ t'))
               else (t, uncaught e)
           | _ \<Rightarrow> (t, uncaught e))
      | (self, t, Return u) \<Rightarrow> module_tail w t)"

text \<open>A world in which every collaborator call returns and the handler runs for ever.\<close>

definition calm :: world where
  "calm =
     \<lparr>time_at_start = 0, validate_required_configs = None, config_security = None,
      new_rate_limiter = None, new_input_validator = None, start_metrics_server = None,
      setup_periodic_cleanup = None, runner_setup = None, port_var = Unset,
      site_start = None, new_telegram_handler = None, preload_wait = Completed,
      set_ready_status = None,
      startup_cache_stats = Inr (JDict [(''performance_cache'', JDict [(''entries'', JNum 0)])]),
      max_connections = None, handler_run = Blocks, runner_cleanup = None\<rparr>"

section \<open>Orderings on a trace\<close>

text \<open>
  \<open>precedes A B t\<close>: in the trace \<open>t\<close>, no event of kind \<open>B\<close> occurs unless an event of
  kind \<open>A\<close> occurred before it.
\<close>

fun precedes :: "(event \<Rightarrow> bool) \<Rightarrow> (event \<Rightarrow> bool) \<Rightarrow> event list \<Rightarrow> bool" where
  "precedes A B [] = True"
| "precedes A B (x # xs) = (if A x then True else if B x then False else precedes A B xs)"

fun is_create_task :: "event \<Rightarrow> bool" where
  "is_create_task (CreateTask tk) = True"
| "is_create_task e = False"

fun is_site_start :: "event \<Rightarrow> bool" where
  "is_site_start (SiteStart port) = True"
| "is_site_start e = False"

fun is_warning :: "event \<Rightarrow> bool" where
  "is_warning (Log WARNING m) = True"
| "is_warning e = False"

text \<open>An \<open>asyncio.wait_for\<close> call, whether it returned or raised.\<close>

fun wait_call :: "event \<Rightarrow> bool" where
  "wait_call (WaitFor tk secs) = True"
| "wait_call (Failed (WaitFor tk secs)) = True"
| "wait_call e = False"


text \<open>
  The events that start a service or a task: a spawned task, the metrics server, the
  health server's runner and site, the handler and its run loop; also when the call
  raised.
\<close>

fun service_start :: "event \<Rightarrow> bool" where
  "service_start (CreateTask tk) = True"
| "service_start (StartMetricsServer port) = True"
| "service_start RunnerSetup = True"
| "service_start (SiteStart port) = True"
| "service_start NewTelegramHandler = True"
| "service_start HandlerRun = True"
| "service_start (Failed e) = service_start e"
| "service_start e = False"

section \<open>Properties of actions\<close>

text \<open>\<open>emits P a\<close>: every event that \<open>a\<close> records satisfies \<open>P\<close>.\<close>

definition emits :: "(event \<Rightarrow> bool) \<Rightarrow> ('s, 'a) action \<Rightarrow> bool" where
  "emits P a \<longleftrightarrow> (\<forall>s. list_all P (trace_of (a s)))"

text \<open>
  \<open>tracks P e a\<close>: \<open>a\<close> keeps \<open>P\<close> once it holds, and \<open>P\<close> holds after \<open>a\<close> whenever \<open>a\<close>
  recorded the event \<open>e\<close>.
\<close>

definition tracks :: "('s \<Rightarrow> bool) \<Rightarrow> event \<Rightarrow> ('s, 'a) action \<Rightarrow> bool" where
  "tracks P e a \<longleftrightarrow> (\<forall>s. P s \<or> e \<in> set (trace_of (a s)) \<longrightarrow> P (state_of (a s)))"

text \<open>\<open>guarded A B a\<close>: every trace of \<open>a\<close> satisfies \<open>precedes A B\<close>.\<close>

definition guarded :: "(event \<Rightarrow> bool) \<Rightarrow> (event \<Rightarrow> bool) \<Rightarrow> ('s, 'a) action \<Rightarrow> bool" where
  "guarded A B a \<longleftrightarrow> (\<forall>s. precedes A B (trace_of (a s)))"

text \<open>\<open>at_most_once e a\<close>: no run of \<open>a\<close> records the event \<open>e\<close> twice.\<close>

definition at_most_once :: "event \<Rightarrow> ('s, 'a) action \<Rightarrow> bool" where
  "at_most_once e a \<longleftrightarrow> (\<forall>s. count_list (trace_of (a s)) e \<le> 1)"

text \<open>Everything that \<open>main\<close> can record after the assignment of the readiness flag.\<close>

fun after_ready :: "event \<Rightarrow> bool" where
  "after_ready (Log INFO m) = True"
| "after_ready (Log ERROR m) = True"
| "after_ready (SystemEvent n) = (n \<noteq> ''preloading_timeout'')"
| "after_ready (SecurityEvent n) = True"
| "after_ready (SetReadyStatus b) = True"
| "after_ready GetCacheStats = True"
| "after_ready HandlerRun = True"
| "after_ready RunnerCleanup = True"
| "after_ready (SysExit c) = True"
| "after_ready (Failed (SetReadyStatus b)) = True"
| "after_ready (Failed GetCacheStats) = True"
| "after_ready (Failed HandlerRun) = True"
| "after_ready (Failed RunnerCleanup) = True"
| "after_ready e = False"

section \<open>Reasoning about actions\<close>

lemma and_then_trace:
  "trace_of (and_then a f s) =
     (case flow_of (a s) of
        Return x \<Rightarrow> trace_of (a s) @ trace_of (f x (state_of (a s)))
      | Raise e \<Rightarrow> trace_of (a s)
      | Pending \<Rightarrow> trace_of (a s))"
  by (simp add: and_then_def trace_of_def flow_of_def state_of_def
      split: prod.splits flow.splits)

lemma and_then_state:
  "state_of (and_then a f s) =
     (case flow_of (a s) of
        Return x \<Rightarrow> state_of (f x (state_of (a s)))
      | Raise e \<Rightarrow> state_of (a s)
      | Pending \<Rightarrow> state_of (a s))"
  by (simp add: and_then_def trace_of_def flow_of_def state_of_def
      split: prod.splits flow.splits)

lemma and_then_flow:
  "flow_of (and_then a f s) =
     (case flow_of (a s) of
        Return x \<Rightarrow> flow_of (f x (state_of (a s)))
      | Raise e \<Rightarrow> Raise e
      | Pending \<Rightarrow> Pending)"
  by (simp add: and_then_def trace_of_def flow_of_def state_of_def
      split: prod.splits flow.splits)

lemma try_except_trace:
  "trace_of (try_except body hs s) =
     (case flow_of (body s) of
        Raise e \<Rightarrow>
          (case hs e of
             None \<Rightarrow> trace_of (body s)
           | Some h \<Rightarrow> trace_of (body s) @ trace_of (h (state_of (body s))))
      | Return x \<Rightarrow> trace_of (body s)
      | Pending \<Rightarrow> trace_of (body s))"
  by (simp add: try_except_def trace_of_def flow_of_def state_of_def
      split: prod.splits flow.splits option.splits)

lemma try_except_state:
  "state_of (try_except body hs s) =
     (case flow_of (body s) of
        Raise e \<Rightarrow>
          (case hs e of
             None \<Rightarrow> state_of (body s)
           | Some h \<Rightarrow> state_of (h (state_of (body s))))
      | Return x \<Rightarrow> state_of (body s)
      | Pending \<Rightarrow> state_of (body s))"
  by (simp add: try_except_def trace_of_def flow_of_def state_of_def
      split: prod.splits flow.splits option.splits)

lemma try_except_flow:
  "flow_of (try_except body hs s) =
     (case flow_of (body s) of
        Raise e \<Rightarrow>
          (case hs e of
             None \<Rightarrow> Raise e
           | Some h \<Rightarrow> flow_of (h (state_of (body s))))
      | Return x \<Rightarrow> Return x
      | Pending \<Rightarrow> Pending)"
  by (simp add: try_except_def trace_of_def flow_of_def state_of_def
      split: prod.splits flow.splits option.splits)

lemma try_finally_trace:
  "trace_of (try_finally body fin s) =
     (case flow_of (body s) of
        Pending \<Rightarrow> trace_of (body s)
      | Return x \<Rightarrow> trace_of (body s) @ trace_of (fin (state_of (body s)))
      | Raise e \<Rightarrow> trace_of (body s) @ trace_of (fin (state_of (body s))))"
  by (simp add: try_finally_def trace_of_def flow_of_def state_of_def
      split: prod.splits flow.splits)

lemma try_finally_state:
  "state_of (try_finally body fin s) =
     (case flow_of (body s) of
        Pending \<Rightarrow> state_of (body s)
      | Return x \<Rightarrow> state_of (fin (state_of (body s)))
      | Raise e \<Rightarrow> state_of (fin (state_of (body s))))"
  by (simp add: try_finally_def trace_of_def flow_of_def state_of_def
      split: prod.splits flow.splits)

lemma try_finally_flow:
  "flow_of (try_finally body fin s) =
     (case flow_of (body s) of
        Pending \<Rightarrow> Pending
      | Return x \<Rightarrow>
          (case flow_of (fin (state_of (body s))) of
             Return u \<Rightarrow> Return x | Raise e \<Rightarrow> Raise e | Pending \<Rightarrow> Pending)
      | Raise e \<Rightarrow>
          (case flow_of (fin (state_of (body s))) of
             Return u \<Rightarrow> Raise e | Raise e' \<Rightarrow> Raise e' | Pending \<Rightarrow> Pending))"
  by (simp add: try_finally_def trace_of_def flow_of_def state_of_def
      split: prod.splits flow.splits)

lemmas views =
  and_then_trace and_then_state and_then_flow
  try_except_trace try_except_state try_except_flow
  try_finally_trace try_finally_state try_finally_flow

lemma basic_views:
  "trace_of (emit es s) = es" "state_of (emit es s) = s" "flow_of (emit es s) = Return ()"
  "trace_of (skip s) = []" "state_of (skip s) = s" "flow_of (skip s) = Return ()"
  "trace_of (assign g s) = []" "state_of (assign g s) = g s" "flow_of (assign g s) = Return ()"
  "trace_of (raise e s) = []" "state_of (raise e s) = s" "flow_of (raise e s) = (Raise e :: 'a flow)"
  "trace_of (sys_exit c s) = [SysExit c]" "state_of (sys_exit c s) = s"
  "flow_of (sys_exit c s) = (Raise (SystemExit c) :: 'a flow)"
  "trace_of (call ev r s) = (case r of None \<Rightarrow> [ev] | Some e \<Rightarrow> [Failed ev])"
  "state_of (call ev r s) = s"
  "flow_of (call ev r s) = (case r of None \<Rightarrow> Return () | Some e \<Rightarrow> Raise e)"
  "trace_of (getattr r s) = []" "state_of (getattr r s) = s"
  "flow_of (getattr r s) = (case r of None \<Rightarrow> Return () | Some e \<Rightarrow> Raise e)"
  by (simp_all add: emit_def skip_def assign_def raise_def sys_exit_def call_def getattr_def
      trace_of_def state_of_def flow_of_def split: option.splits)

lemma triple_views:
  "trace_of (s, t, r) = t" "state_of (s, t, r) = s" "flow_of (s, t, r) = r"
  by (simp_all add: trace_of_def state_of_def flow_of_def)

lemma block_append: "block (as @ bs) = and_then (block as) (\<lambda>u. block bs)"
proof (induction as)
  case Nil
  show ?case by (rule ext) (simp add: and_then_def skip_def split: prod.splits)
next
  case (Cons a as)
  show ?case
    by (rule ext)
      (simp add: Cons.IH and_then_def split: prod.splits flow.splits)
qed

subsection \<open>What an action can emit\<close>

lemma emitsD: "emits P a \<Longrightarrow> list_all P (trace_of (a s))"
  by (simp add: emits_def)

lemma emits_emit: "list_all P es \<Longrightarrow> emits P (emit es)"
  by (simp add: emits_def basic_views)

lemma emits_skip: "emits P skip"
  by (simp add: emits_def basic_views)

lemma emits_assign: "emits P (assign g)"
  by (simp add: emits_def basic_views)

lemma emits_raise: "emits P (raise e)"
  by (simp add: emits_def basic_views)

lemma emits_getattr: "emits P (getattr r)"
  by (simp add: emits_def basic_views)

lemma emits_sys_exit: "P (SysExit c) \<Longrightarrow> emits P (sys_exit c)"
  by (simp add: emits_def basic_views)

lemma emits_call: "P ev \<Longrightarrow> P (Failed ev) \<Longrightarrow> emits P (call ev r)"
  by (simp add: emits_def basic_views split: option.splits)

lemma emits_const: "list_all P t \<Longrightarrow> emits P (\<lambda>s. (g s, t, r))"
  by (simp add: emits_def triple_views)

lemma emits_and_then: "emits P a \<Longrightarrow> (\<And>x. emits P (f x)) \<Longrightarrow> emits P (and_then a f)"
  by (simp add: emits_def and_then_trace split: flow.splits)

lemma emits_block_Nil: "emits P (block [])"
  by (simp add: emits_skip)

lemma emits_block_Cons: "emits P a \<Longrightarrow> emits P (block as) \<Longrightarrow> emits P (block (a # as))"
  by (simp add: emits_and_then)

lemma emits_block_append: "emits P (block as) \<Longrightarrow> emits P (block bs) \<Longrightarrow> emits P (block (as @ bs))"
  by (simp add: block_append emits_and_then)

lemma emits_case_sum:
  "(\<And>x. emits P (f x)) \<Longrightarrow> (\<And>y. emits P (g y)) \<Longrightarrow> emits P (case v of Inl x \<Rightarrow> f x | Inr y \<Rightarrow> g y)"
  by (cases v) simp_all

lemma emits_try_except:
  "emits P body \<Longrightarrow> (\<And>e h. hs e = Some h \<Longrightarrow> emits P h) \<Longrightarrow> emits P (try_except body hs)"
  by (simp add: emits_def try_except_trace split: flow.splits option.splits)

lemma emits_try_finally: "emits P body \<Longrightarrow> emits P fin \<Longrightarrow> emits P (try_finally body fin)"
  by (simp add: emits_def try_finally_trace split: flow.splits)

lemma emits_if: "emits P a \<Longrightarrow> emits P b \<Longrightarrow> emits P (\<lambda>s. if c s then a s else b s)"
  by (simp add: emits_def)

lemmas emits_intros =
  emits_emit emits_skip emits_assign emits_raise emits_getattr emits_sys_exit emits_call
  emits_const emits_and_then emits_block_Nil emits_block_Cons emits_block_append
  emits_try_except emits_try_finally emits_if emits_case_sum

subsection \<open>What an action does to a property of the state\<close>

lemma tracksD: "tracks P e a \<Longrightarrow> P s \<or> e \<in> set (trace_of (a s)) \<Longrightarrow> P (state_of (a s))"
  by (auto simp: tracks_def)

lemma tracks_leaf:
  "(\<And>s. state_of (a s) = s) \<Longrightarrow> emits (\<lambda>x. x \<noteq> e) a \<Longrightarrow> tracks P e a"
  by (auto simp: tracks_def emits_def list_all_iff)

lemma tracks_emit: "e \<notin> set es \<Longrightarrow> tracks P e (emit es)"
  by (simp add: tracks_def basic_views)

lemma tracks_skip: "tracks P e skip"
  by (simp add: tracks_def basic_views)

lemma tracks_assign: "(\<And>s. P s \<Longrightarrow> P (g s)) \<Longrightarrow> tracks P e (assign g)"
  by (simp add: tracks_def basic_views)

lemma tracks_raise: "tracks P e (raise x)"
  by (simp add: tracks_def basic_views)

lemma tracks_getattr: "tracks P e (getattr r)"
  by (simp add: tracks_def basic_views)

lemma tracks_sys_exit: "e \<noteq> SysExit c \<Longrightarrow> tracks P e (sys_exit c)"
  by (auto simp: tracks_def basic_views)

lemma tracks_call: "e \<noteq> ev \<Longrightarrow> e \<noteq> Failed ev \<Longrightarrow> tracks P e (call ev r)"
  by (auto simp: tracks_def basic_views split: option.splits)

lemma tracks_const: "e \<notin> set t \<Longrightarrow> (\<And>s. P s \<Longrightarrow> P (g s)) \<Longrightarrow> tracks P e (\<lambda>s. (g s, t, r))"
  by (simp add: tracks_def triple_views)

lemma tracks_establish: "(\<And>s. P (g s)) \<Longrightarrow> tracks P e (\<lambda>s. (g s, t, r))"
  by (simp add: tracks_def triple_views)

lemma tracks_and_then:
  assumes "tracks P e a" and "\<And>x. tracks P e (f x)"
  shows "tracks P e (and_then a f)"
  unfolding tracks_def
proof (intro allI impI)
  fix s
  assume h: "P s \<or> e \<in> set (trace_of (and_then a f s))"
  show "P (state_of (and_then a f s))"
  proof (cases "flow_of (a s)")
    case (Return x)
    from h Return have "(P s \<or> e \<in> set (trace_of (a s)))
        \<or> e \<in> set (trace_of (f x (state_of (a s))))"
      by (auto simp: and_then_trace)
    then have "P (state_of (a s)) \<or> e \<in> set (trace_of (f x (state_of (a s))))"
      using tracksD [OF assms(1), of s] by blast
    then have "P (state_of (f x (state_of (a s))))"
      by (rule tracksD [OF assms(2)])
    with Return show ?thesis by (simp add: and_then_state)
  next
    case (Raise x)
    with h tracksD [OF assms(1), of s] show ?thesis
      by (simp add: and_then_state and_then_trace)
  next
    case Pending
    with h tracksD [OF assms(1), of s] show ?thesis
      by (simp add: and_then_state and_then_trace)
  qed
qed

lemma tracks_block_Nil: "tracks P e (block [])"
  by (simp add: tracks_skip)

lemma tracks_block_Cons: "tracks P e a \<Longrightarrow> tracks P e (block as) \<Longrightarrow> tracks P e (block (a # as))"
  by (simp add: tracks_and_then)

lemma tracks_block_append:
  "tracks P e (block as) \<Longrightarrow> tracks P e (block bs) \<Longrightarrow> tracks P e (block (as @ bs))"
  by (simp add: block_append tracks_and_then)

lemma tracks_case_sum:
  "(\<And>x. tracks P e (f x)) \<Longrightarrow> (\<And>y. tracks P e (g y))
    \<Longrightarrow> tracks P e (case v of Inl x \<Rightarrow> f x | Inr y \<Rightarrow> g y)"
  by (cases v) simp_all

lemma tracks_try_except:
  assumes "tracks P e body" and "\<And>x h. hs x = Some h \<Longrightarrow> tracks P e h"
  shows "tracks P e (try_except body hs)"
  unfolding tracks_def
proof (intro allI impI)
  fix s
  assume h: "P s \<or> e \<in> set (trace_of (try_except body hs s))"
  show "P (state_of (try_except body hs s))"
  proof (cases "flow_of (body s)")
    case (Raise x)
    show ?thesis
    proof (cases "hs x")
      case None
      with Raise h tracksD [OF assms(1), of s] show ?thesis
        by (simp add: try_except_state try_except_trace)
    next
      case (Some hd)
      from h Raise Some have "(P s \<or> e \<in> set (trace_of (body s)))
          \<or> e \<in> set (trace_of (hd (state_of (body s))))"
        by (auto simp: try_except_trace)
      then have "P (state_of (body s)) \<or> e \<in> set (trace_of (hd (state_of (body s))))"
        using tracksD [OF assms(1), of s] by blast
      then have "P (state_of (hd (state_of (body s))))"
        by (rule tracksD [OF assms(2) [OF Some]])
      with Raise Some show ?thesis by (simp add: try_except_state)
    qed
  next
    case (Return x)
    with h tracksD [OF assms(1), of s] show ?thesis
      by (simp add: try_except_state try_except_trace)
  next
    case Pending
    with h tracksD [OF assms(1), of s] show ?thesis
      by (simp add: try_except_state try_except_trace)
  qed
qed

lemma tracks_try_finally:
  assumes "tracks P e body" and "tracks P e fin"
  shows "tracks P e (try_finally body fin)"
  unfolding tracks_def
proof (intro allI impI)
  fix s
  assume h: "P s \<or> e \<in> set (trace_of (try_finally body fin s))"
  have fin: "P (state_of (body s)) \<or> e \<in> set (trace_of (fin (state_of (body s))))
      \<Longrightarrow> P (state_of (fin (state_of (body s))))"
    by (rule tracksD [OF assms(2)])
  show "P (state_of (try_finally body fin s))"
  proof (cases "flow_of (body s)")
    case Pending
    with h tracksD [OF assms(1), of s] show ?thesis
      by (simp add: try_finally_state try_finally_trace)
  next
    case (Return x)
    from h Return have "(P s \<or> e \<in> set (trace_of (body s)))
        \<or> e \<in> set (trace_of (fin (state_of (body s))))"
      by (auto simp: try_finally_trace)
    then have "P (state_of (body s)) \<or> e \<in> set (trace_of (fin (state_of (body s))))"
      using tracksD [OF assms(1), of s] by blast
    with fin Return show ?thesis by (simp add: try_finally_state)
  next
    case (Raise x)
    from h Raise have "(P s \<or> e \<in> set (trace_of (body s)))
        \<or> e \<in> set (trace_of (fin (state_of (body s))))"
      by (auto simp: try_finally_trace)
    then have "P (state_of (body s)) \<or> e \<in> set (trace_of (fin (state_of (body s))))"
      using tracksD [OF assms(1), of s] by blast
    with fin Raise show ?thesis by (simp add: try_finally_state)
  qed
qed

lemma tracks_if: "tracks P e a \<Longrightarrow> tracks P e b \<Longrightarrow> tracks P e (\<lambda>s. if c s then a s else b s)"
  by (simp add: tracks_def)

lemmas tracks_intros =
  tracks_emit tracks_skip tracks_assign tracks_raise tracks_getattr tracks_sys_exit tracks_call
  tracks_const tracks_and_then tracks_block_Nil tracks_block_Cons tracks_block_append
  tracks_try_except tracks_try_finally tracks_if tracks_case_sum

subsection \<open>Unfolding a run\<close>

lemmas action_defs =
  and_then_def skip_def emit_def assign_def raise_def call_def sys_exit_def getattr_def
  try_except_def try_finally_def trace_of_def state_of_def flow_of_def

lemmas program_defs =
  TradingBot_def validate_try_def validate_environment_def runner_stop_def signal_handler_def handles_def
  setup_signal_handlers_def read_port_def start_health_server_def check_environment_def
  asyncio_wait_for_def await_preload_def startup_steps_def log_cache_stats_def
  await_run_def mark_ready_def serve_steps_def main_try_def main_except_def main_finally_def
  main_from_def new_bot_def main_def asyncio_create_task_def init_bot_def create_app_def
  web_deployment_def initial_globals_def module_tail_def script_def subscript_def

subsection \<open>The phases of a run\<close>

lemma emits_mono: "emits P a \<Longrightarrow> (\<And>e. P e \<Longrightarrow> Q e) \<Longrightarrow> emits Q a"
  by (auto simp: emits_def list_all_iff)


lemma wait_for_state: "state_of (asyncio_wait_for tk secs r s) = s"
  by (simp add: asyncio_wait_for_def state_of_def split: wait_result.splits cancel_result.splits)

lemma emits_wait_for:
  "P (WaitFor tk secs) \<Longrightarrow> P (Failed (WaitFor tk secs)) \<Longrightarrow> P (CancelTask tk)
    \<Longrightarrow> emits P (asyncio_wait_for tk secs r)"
  by (simp add: emits_def asyncio_wait_for_def trace_of_def
      split: wait_result.splits cancel_result.splits)

lemma await_run_state: "state_of (await_run w s) = s"
  by (simp add: await_run_def state_of_def split: completion.splits)

lemma emits_await_run: "P HandlerRun \<Longrightarrow> P (Failed HandlerRun) \<Longrightarrow> emits P (await_run w)"
  by (simp add: emits_def await_run_def trace_of_def split: completion.splits)

lemma emits_validate:
  assumes "P ValidateRequiredConfigs" "P (Failed ValidateRequiredConfigs)"
    "P NewRateLimiter" "P (Failed NewRateLimiter)"
    "P NewInputValidator" "P (Failed NewInputValidator)"
    "P (Log INFO ''Environment validation successful'')"
    "P (SystemEvent ''environment_validation'')"
    "P (Log ERROR ''Environment validation failed'')"
    "P (SecurityEvent ''environment_validation_failed'')"
  shows "emits P (validate_environment w)"
  unfolding validate_environment_def validate_try_def
  by (intro emits_intros) (auto simp: assms split: if_splits intro!: emits_intros)

lemma emits_check_environment:
  assumes "emits P (validate_environment w)"
    "P (Log ERROR ''Environment validation failed, exiting...'')"
    "P (SecurityEvent ''startup_failed'')" "P (SysExit 1)"
  shows "emits P (check_environment w)"
  unfolding check_environment_def
  by (intro emits_intros assms(1)) (simp_all add: assms emits_intros)

lemma emits_start_health_server:
  assumes "P NewApplication" "\<And>r. P (AddRoute r)" "P RunnerSetup" "P (Failed RunnerSetup)"
    "\<And>p. P (SiteStart p)" "\<And>p. P (Failed (SiteStart p))"
    "P (Log INFO ''Health check server started'')"
  shows "emits P (start_health_server w)"
  unfolding start_health_server_def
  by (intro emits_intros) (simp_all add: assms)

lemma emits_startup_steps:
  assumes "emits P (start_health_server w)"
    "P (Log INFO ''Starting performance optimizations...'')" "P (CreateTask PreloadTask)"
    "P (StartMetricsServer 9090)" "P (Failed (StartMetricsServer 9090))"
    "P SetupPeriodicCleanup" "P (Failed SetupPeriodicCleanup)"
    "P NewTelegramHandler" "P (Failed NewTelegramHandler)"
    "P (Log INFO ''TelegramHandler created successfully'')"
    "P (SystemEvent ''telegram_handler_initialized'')"
  shows "emits P (block (startup_steps w))"
  unfolding startup_steps_def
  by (intro emits_intros assms(1)) (simp_all add: assms)

lemma emits_await_preload:
  assumes "P (WaitFor PreloadTask 30)" "P (Failed (WaitFor PreloadTask 30))"
    "P (CancelTask PreloadTask)"
    "P (Log INFO ''Preloading completed successfully'')" "P (SystemEvent ''preloading_completed'')"
    "P (Log WARNING ''Preloading timed out, continuing startup'')"
    "P (SystemEvent ''preloading_timeout'')"
    "P (Log WARNING ''Preloading failed, continuing startup'')"
    "P (SystemEvent ''preloading_failed'')"
  shows "emits P (await_preload w)"
  unfolding await_preload_def
  by (intro emits_intros emits_wait_for) (auto simp: assms split: if_splits intro!: emits_intros)

lemma emits_log_cache_stats:
  assumes "P GetCacheStats" "P (Failed GetCacheStats)" "P (Log INFO ''Cache initialized'')"
  shows "emits P (log_cache_stats w)"
  unfolding log_cache_stats_def
  by (intro emits_intros) (simp_all add: assms)

lemma emits_serve_steps: "emits after_ready (block (serve_steps w))"
  unfolding serve_steps_def
  by (intro emits_intros emits_log_cache_stats emits_await_run) simp_all

lemma emits_main_except: "main_except e = Some h \<Longrightarrow> emits after_ready h"
  by (auto simp: main_except_def split: if_splits intro!: emits_intros)

lemma emits_main_finally: "emits after_ready (main_finally w)"
  unfolding main_finally_def
  by (intro emits_intros) simp_all

lemma after_ready_excludes:
  "after_ready e \<Longrightarrow>
     \<not> is_warning e \<and> \<not> wait_call e \<and> \<not> is_create_task e \<and> e \<noteq> ReadyFlagSet
     \<and> e \<noteq> SystemEvent ''preloading_timeout'' \<and> e \<noteq> CancelTask tk"
  by (induction e rule: after_ready.induct) simp_all

lemma after_ready_filters:
  assumes "list_all after_ready xs"
  shows "filter is_warning xs = []" and "filter wait_call xs = []"
    and "filter is_create_task xs = []"
    and "count_list xs ReadyFlagSet = 0"
    and "count_list xs (SystemEvent ''preloading_timeout'') = 0"
    and "count_list xs (Log WARNING m) = 0"
    and "count_list xs (CancelTask tk) = 0"
    and "ReadyFlagSet \<notin> set xs"
  using assms after_ready_excludes
  by (auto simp: list_all_iff filter_empty_conv count_list_0_iff)

lemmas serve_filters = after_ready_filters [OF emitsD [OF emits_serve_steps]]

text \<open>What \<open>main\<close> records after its \<open>try\<close> body: the \<open>except\<close> clause and the \<open>finally\<close> clause.\<close>

lemma main_from_tail:
  "\<exists>tail. trace_of (main_from w s) = trace_of (main_try w s) @ tail \<and> list_all after_ready tail"
proof -
  let ?body = "try_except (main_try w) main_except"
  have fin: "list_all after_ready (trace_of (main_finally w s'))" for s'
    by (rule emitsD [OF emits_main_finally])
  have "\<exists>t. trace_of (?body s) = trace_of (main_try w s) @ t \<and> list_all after_ready t"
  proof (cases "flow_of (main_try w s)")
    case (Raise e)
    show ?thesis
    proof (cases "main_except e")
      case None
      with Raise show ?thesis by (simp add: try_except_trace)
    next
      case (Some h)
      with Raise emitsD [OF emits_main_except [OF Some]] show ?thesis
        by (simp add: try_except_trace)
    qed
  qed (simp_all add: try_except_trace)
  then obtain t where t: "trace_of (?body s) = trace_of (main_try w s) @ t"
    and tok: "list_all after_ready t" by blast
  show ?thesis
  proof (cases "flow_of (?body s)")
    case Pending
    with t tok show ?thesis
      by (simp add: main_from_def try_finally_trace)
  next
    case (Return x)
    with t tok fin [of "state_of (?body s)"] show ?thesis
      by (simp add: main_from_def try_finally_trace)
  next
    case (Raise e)
    with t tok fin [of "state_of (?body s)"] show ?thesis
      by (simp add: main_from_def try_finally_trace)
  qed
qed

lemma main_views:
  "trace_of (main w) = snd TradingBot @ trace_of (main_from w (new_bot w))"
  "state_of (main w) = state_of (main_from w (new_bot w))"
  "flow_of (main w) = flow_of (main_from w (new_bot w))"
  by (simp_all add: main_def trace_of_def state_of_def flow_of_def split: prod.splits)

subsection \<open>The readiness flag along a run\<close>

lemma tracks_mark_ready: "tracks is_ready e mark_ready"
  by (simp add: tracks_def mark_ready_def triple_views)

lemma tracks_wait_for: "tracks P ReadyFlagSet (asyncio_wait_for tk secs r)"
  by (rule tracks_leaf [OF wait_for_state]) (rule emits_wait_for, simp_all)

lemma tracks_await_run: "tracks P ReadyFlagSet (await_run w)"
  by (rule tracks_leaf [OF await_run_state]) (rule emits_await_run, simp_all)

lemma tracks_validate: "tracks is_ready ReadyFlagSet (validate_environment w)"
  unfolding validate_environment_def validate_try_def
  by (intro tracks_intros) (auto split: if_splits intro!: tracks_intros)

lemma tracks_start_health_server: "tracks is_ready ReadyFlagSet (start_health_server w)"
  unfolding start_health_server_def
  by (intro tracks_intros) simp_all

lemma tracks_signal_handler: "tracks is_ready ReadyFlagSet signal_handler"
  unfolding signal_handler_def runner_stop_def
  by (intro tracks_intros) simp_all

lemma tracks_main_try: "tracks is_ready ReadyFlagSet (main_try w)"
  unfolding main_try_def check_environment_def startup_steps_def await_preload_def
    serve_steps_def log_cache_stats_def append.simps
  by (intro tracks_intros tracks_validate tracks_start_health_server tracks_mark_ready
      tracks_wait_for tracks_await_run)
    (auto split: if_splits intro!: tracks_intros)

lemma tracks_main_from: "tracks is_ready ReadyFlagSet (main_from w)"
  unfolding main_from_def main_finally_def
  by (intro tracks_intros tracks_main_try)
    (auto simp: main_except_def split: if_splits intro!: tracks_intros)

lemma tracks_init_bot: "tracks is_ready ReadyFlagSet (init_bot w)"
  unfolding init_bot_def asyncio_create_task_def
  by (intro tracks_intros tracks_validate tracks_mark_ready)
    (auto split: if_splits intro!: tracks_intros tracks_mark_ready)

section \<open>Properties of the probes\<close>

lemma dict_keys_set: "dict_keys (dict_set d k v) = insert k (dict_keys d)"
  unfolding dict_keys_def
  by (induction d k v rule: dict_set.induct) (simp_all add: insert_commute)

lemma dict_keys_merge: "dict_keys (dict_merge a b) = dict_keys a \<union> dict_keys b"
  unfolding dict_merge_def
proof (induction b arbitrary: a)
  case Nil
  show ?case by (simp add: dict_keys_def)
next
  case (Cons p b)
  obtain k v where p: "p = (k, v)" by (cases p)
  have "dict_keys (fold (\<lambda>(k, v) d. dict_set d k v) b (dict_set a k v))
          = dict_keys (dict_set a k v) \<union> dict_keys b"
    by (rule Cons.IH)
  then show ?case
    by (simp add: p dict_keys_set) (auto simp: dict_keys_def)
qed

lemma metrics_body_ok_keys:
  assumes "metrics_body self pe = Inr resp"
  shows "\<exists>d. resp = JsonResponse d 200 \<and>
             {''uptime_seconds'', ''ready'', ''telegram_handler_status''} \<subseteq> dict_keys d"
proof -
  from assms obtain t0 pm0 cs pm where
    r: "resp = JsonResponse (dict_set (dict_merge
            [(''uptime_seconds'', JNum (time_now pe - t0)),
             (''ready'', JBool (is_ready self)),
             (''telegram_handler_status'',
                JStr (if telegram_handler self \<noteq> None then ''active'' else ''inactive''))] pm)
            ''cache_stats'' cs) 200"
    by (auto simp: metrics_body_def Let_def split: option.splits sum.splits if_splits)
  show ?thesis
    unfolding r by (rule exI, rule conjI, rule refl)
      (simp add: dict_keys_set dict_keys_merge, simp add: dict_keys_def)
qed

text \<open>
  C8. The liveness probe answers 200 "OK" for every request and every state of the bot:
  the response is the same whatever the readiness flag, the handler and all other
  attributes are.
\<close>

theorem health_check_always_ok:
  "health_check self request = Response ''OK'' 200"
  by (simp add: health_check_def)

text \<open>
  C1. The readiness probe answers 200 "Ready" exactly when the readiness flag is true and
  a handler object is present, and 503 "Not Ready" in every other state.
\<close>

theorem readiness_check_iff:
  "(readiness_check self request = Response ''Ready'' 200
      \<longleftrightarrow> is_ready self \<and> telegram_handler self \<noteq> None)
   \<and> (readiness_check self request = Response ''Not Ready'' 503
      \<longleftrightarrow> \<not> (is_ready self \<and> telegram_handler self \<noteq> None))
   \<and> (readiness_check self request = Response ''Ready'' 200
      \<or> readiness_check self request = Response ''Not Ready'' 503)"
  by (simp add: readiness_check_def)

text \<open>
  C6. Whenever building the metrics payload raises an exception (of class \<open>Exception\<close>:
  a missing start time, a failing metrics summary, failing cache statistics, a payload
  that cannot be merged or serialised), the metrics endpoint returns the 500 response
  with the generic error payload and raises nothing; when the payload is built, it
  returns that payload with status 200, and the payload has the keys \<open>uptime_seconds\<close>,
  \<open>ready\<close> and \<open>telegram_handler_status\<close>.
\<close>

theorem metrics_endpoint_recovers:
  "(\<forall>e. metrics_body self pe = Inl e \<and> is_Exception e \<longrightarrow>
        metrics_endpoint self pe request
          = Inr (JsonResponse [(''error'', JStr ''Metrics unavailable'')] 500))
   \<and> (start_time self = None \<longrightarrow>
        metrics_endpoint self pe request
          = Inr (JsonResponse [(''error'', JStr ''Metrics unavailable'')] 500))
   \<and> (\<forall>e. get_metrics_summary pe = Inl e \<and> is_Exception e \<longrightarrow>
        metrics_endpoint self pe request
          = Inr (JsonResponse [(''error'', JStr ''Metrics unavailable'')] 500))
   \<and> (\<forall>e m. get_metrics_summary pe = Inr m \<and> get_cache_stats pe = Inl e \<and> is_Exception e \<longrightarrow>
        metrics_endpoint self pe request
          = Inr (JsonResponse [(''error'', JStr ''Metrics unavailable'')] 500))
   \<and> (\<forall>resp. metrics_body self pe = Inr resp \<longrightarrow>
        metrics_endpoint self pe request = Inr resp
        \<and> (\<exists>d. resp = JsonResponse d 200
               \<and> {''uptime_seconds'', ''ready'', ''telegram_handler_status''} \<subseteq> dict_keys d))"
proof (intro conjI allI impI)
  fix e
  assume "metrics_body self pe = Inl e \<and> is_Exception e"
  then show "metrics_endpoint self pe request
      = Inr (JsonResponse [(''error'', JStr ''Metrics unavailable'')] 500)"
    by (simp add: metrics_endpoint_def)
next
  assume "start_time self = None"
  then show "metrics_endpoint self pe request
      = Inr (JsonResponse [(''error'', JStr ''Metrics unavailable'')] 500)"
    by (simp add: metrics_endpoint_def metrics_body_def)
next
  fix e
  assume "get_metrics_summary pe = Inl e \<and> is_Exception e"
  then show "metrics_endpoint self pe request
      = Inr (JsonResponse [(''error'', JStr ''Metrics unavailable'')] 500)"
    by (simp add: metrics_endpoint_def metrics_body_def split: option.splits)
next
  fix e m
  assume "get_metrics_summary pe = Inr m \<and> get_cache_stats pe = Inl e \<and> is_Exception e"
  then show "metrics_endpoint self pe request
      = Inr (JsonResponse [(''error'', JStr ''Metrics unavailable'')] 500)"
    by (simp add: metrics_endpoint_def metrics_body_def split: option.splits)
next
  fix resp
  assume "metrics_body self pe = Inr resp"
  then show "metrics_endpoint self pe request = Inr resp"
    by (simp add: metrics_endpoint_def)
next
  fix resp
  assume "metrics_body self pe = Inr resp"
  then show "\<exists>d. resp = JsonResponse d 200
      \<and> {''uptime_seconds'', ''ready'', ''telegram_handler_status''} \<subseteq> dict_keys d"
    by (rule metrics_body_ok_keys)
qed

theorem metrics_endpoint_recovers_witness:
  "metrics_endpoint (new_bot calm)
      \<lparr>time_now = 5, get_metrics_summary = Inl OtherException,
       get_cache_stats = Inr (JDict [])\<rparr> ()
     = Inr (JsonResponse [(''error'', JStr ''Metrics unavailable'')] 500)
   \<and> metrics_endpoint (new_bot calm)
      \<lparr>time_now = 5, get_metrics_summary = Inr (JDict [(''requests'', JNum 7)]),
       get_cache_stats = Inr (JDict [])\<rparr> ()
     = Inr (JsonResponse
             [(''uptime_seconds'', JNum 5), (''ready'', JBool False),
              (''telegram_handler_status'', JStr ''inactive''),
              (''requests'', JNum 7), (''cache_stats'', JDict [])] 200)"
proof -
  let ?bad = "\<lparr>time_now = 5, get_metrics_summary = Inl OtherException,
       get_cache_stats = Inr (JDict [])\<rparr>"
  let ?good = "\<lparr>time_now = 5, get_metrics_summary = Inr (JDict [(''requests'', JNum 7)]),
       get_cache_stats = Inr (JDict [])\<rparr>"
  have body: "metrics_body (new_bot calm) ?good
     = Inr (JsonResponse
             [(''uptime_seconds'', JNum 5), (''ready'', JBool False),
              (''telegram_handler_status'', JStr ''inactive''),
              (''requests'', JNum 7), (''cache_stats'', JDict [])] 200)"
    by (simp add: metrics_body_def new_bot_def TradingBot_def calm_def as_mapping_def
        dict_merge_def)
  have "get_metrics_summary ?bad = Inl OtherException \<and> is_Exception OtherException"
    by simp
  with metrics_endpoint_recovers [of "new_bot calm" ?bad "()"]
  have bad: "metrics_endpoint (new_bot calm) ?bad ()
     = Inr (JsonResponse [(''error'', JStr ''Metrics unavailable'')] 500)"
    by blast
  from metrics_endpoint_recovers [of "new_bot calm" ?good "()"] body
  have "metrics_endpoint (new_bot calm) ?good ()
     = Inr (JsonResponse
             [(''uptime_seconds'', JNum 5), (''ready'', JBool False),
              (''telegram_handler_status'', JStr ''inactive''),
              (''requests'', JNum 7), (''cache_stats'', JDict [])] 200)"
    by blast
  with bad show ?thesis by simp
qed

section \<open>Properties of startup, signals and shutdown\<close>

subsection \<open>Signals\<close>











subsection \<open>Shutdown\<close>

lemma main_finally_state: "state_of (main_finally w s) = s"
  by (simp add: main_finally_def action_defs split: option.splits)

lemma main_finally_returns:
  assumes "runner_cleanup w = None \<or> health_server s = None"
  shows "flow_of (main_finally w s) = Return ()"
    and "trace_of (main_finally w s) \<noteq> []"
    and "last (trace_of (main_finally w s)) = SystemEvent ''bot_shutdown_complete''"
  using assms by (auto simp: main_finally_def action_defs split: option.splits)

lemma main_from_state:
  "state_of (main_from w s) = state_of (try_except (main_try w) main_except s)"
  by (simp add: main_from_def try_finally_state main_finally_state split: flow.splits)

text \<open>
  C5 (as amended). In every run of \<open>main\<close> that ends, the final audit event
  \<open>bot_shutdown_complete\<close> is the last thing recorded, provided the awaited teardown of
  the health server returns or no health server is held. The steps of the \<open>finally\<close>
  clause are not attempted independently: a teardown that raises ends the clause.
\<close>

theorem final_audit_when_teardown_returns:
  assumes "flow_of (main w) \<noteq> Pending"
    and "runner_cleanup w = None \<or> health_server (state_of (main w)) = None"
  shows "last (trace_of (main w)) = SystemEvent ''bot_shutdown_complete''"
proof -
  let ?body = "try_except (main_try w) main_except (new_bot w)"
  have ended: "flow_of ?body \<noteq> Pending"
    using assms(1) by (auto simp: main_views main_from_def try_finally_flow)
  have st: "state_of (main w) = state_of ?body"
    by (simp add: main_views main_from_state)
  have fin: "runner_cleanup w = None \<or> health_server (state_of ?body) = None"
    using assms(2) st by simp
  have tr: "trace_of (main w)
      = snd TradingBot @ trace_of ?body @ trace_of (main_finally w (state_of ?body))"
    using ended by (simp add: main_views main_from_def try_finally_trace split: flow.splits)
  show ?thesis
    unfolding tr using main_finally_returns(2,3) [OF fin] by simp
qed

theorem final_audit_when_teardown_returns_witness:
  "flow_of (main (calm\<lparr>handler_run := Done\<rparr>)) \<noteq> Pending
   \<and> runner_cleanup (calm\<lparr>handler_run := Done\<rparr>) = None
   \<and> last (trace_of (main (calm\<lparr>handler_run := Done\<rparr>)))
       = SystemEvent ''bot_shutdown_complete''"
proof -
  have a: "flow_of (main (calm\<lparr>handler_run := Done\<rparr>)) \<noteq> Pending"
    by (simp add: action_defs program_defs calm_def)
  have b: "runner_cleanup (calm\<lparr>handler_run := Done\<rparr>) = None"
    by (simp add: calm_def)
  from final_audit_when_teardown_returns [OF a disjI1 [OF b]] a b
  show ?thesis by simp
qed

text \<open>
  The handler's run loop returns, the teardown of the health server raises: \<open>main\<close>
  ends with that exception and the final audit event is never recorded.
\<close>

theorem failed_teardown_skips_audit_counterexample:
  "flow_of (main (calm\<lparr>handler_run := Done, runner_cleanup := Some OSError\<rparr>)) = Raise OSError
   \<and> SystemEvent ''bot_shutdown_complete''
       \<notin> set (trace_of (main (calm\<lparr>handler_run := Done, runner_cleanup := Some OSError\<rparr>)))"
  by (simp add: action_defs program_defs calm_def)

subsection \<open>A preload that outlasts its timeout\<close>

text \<open>The \<open>try\<close> body of \<open>main\<close>: the statements up to line 167, lines 170 to 182, the rest.\<close>

lemma main_try_split:
  "main_try w =
     and_then
       (block ([emit [Log INFO ''Starting AI Trading Bot...'', SystemEvent ''bot_startup''],
              check_environment w] @ startup_steps w))
       (\<lambda>u. and_then (block [await_preload w, mark_ready]) (\<lambda>u. block (serve_steps w)))"
proof -
  have "main_try w = block (([emit [Log INFO ''Starting AI Trading Bot...'', SystemEvent ''bot_startup''],
              check_environment w] @ startup_steps w)
           @ ([await_preload w, mark_ready] @ serve_steps w))"
    by (simp add: main_try_def)
  also have "\<dots> = and_then (block ([emit [Log INFO ''Starting AI Trading Bot...'', SystemEvent ''bot_startup''],
              check_environment w] @ startup_steps w))
       (\<lambda>u. block ([await_preload w, mark_ready] @ serve_steps w))"
    by (rule block_append)
  also have "block ([await_preload w, mark_ready] @ serve_steps w)
      = and_then (block [await_preload w, mark_ready]) (\<lambda>u. block (serve_steps w))"
    by (rule block_append)
  finally show ?thesis .
qed

text \<open>A run whose calls up to the created handler all return reaches the wait.\<close>

lemma startup_reaches_wait:
  assumes "validate_required_configs w = None" "config_security w = None"
    "new_rate_limiter w = None" "new_input_validator w = None"
    "start_metrics_server w = None" "setup_periodic_cleanup w = None"
    "runner_setup w = None" "port_var w \<noteq> Malformed" "site_start w = None"
    "new_telegram_handler w = None"
  shows "flow_of (block ([emit [Log INFO ''Starting AI Trading Bot...'', SystemEvent ''bot_startup''],
              check_environment w] @ startup_steps w) (new_bot w)) = Return ()"
    and "trace_of (block ([emit [Log INFO ''Starting AI Trading Bot...'', SystemEvent ''bot_startup''],
              check_environment w] @ startup_steps w) (new_bot w))
      = [Log INFO ''Starting AI Trading Bot...'', SystemEvent ''bot_startup'',
         ValidateRequiredConfigs, NewRateLimiter, NewInputValidator,
         Log INFO ''Environment validation successful'',
         SystemEvent ''environment_validation'',
         Log INFO ''Starting performance optimizations...'',
         CreateTask PreloadTask, StartMetricsServer 9090, SetupPeriodicCleanup,
         NewApplication, AddRoute ''/health'', AddRoute ''/ready'',
         AddRoute ''/metrics'', AddRoute ''/'', RunnerSetup,
         SiteStart (case port_var w of Digits n \<Rightarrow> n | _ \<Rightarrow> 8080),
         Log INFO ''Health check server started'', NewTelegramHandler,
         Log INFO ''TelegramHandler created successfully'',
         SystemEvent ''telegram_handler_initialized'']"
    and "\<not> is_ready (state_of (block ([emit [Log INFO ''Starting AI Trading Bot...'', SystemEvent ''bot_startup''],
              check_environment w] @ startup_steps w) (new_bot w)))"
  using assms
  by (simp_all add: action_defs program_defs split: port_setting.splits)

text \<open>Lines 170 to 182 when the timeout expires before the preload task ends.\<close>

lemma timed_out_wait:
  assumes "preload_wait w = TimedOut c"
  shows "trace_of (block [await_preload w, mark_ready] s)
      = CancelTask PreloadTask #
        (case c of
           Cancelled \<Rightarrow>
             [Failed (WaitFor PreloadTask 30), Log WARNING ''Preloading timed out, continuing startup'',
              SystemEvent ''preloading_timeout'', ReadyFlagSet]
         | ReturnedAnyway \<Rightarrow>
             [WaitFor PreloadTask 30, Log INFO ''Preloading completed successfully'',
              SystemEvent ''preloading_completed'', ReadyFlagSet]
         | RaisedInstead e \<Rightarrow>
             Failed (WaitFor PreloadTask 30) #
             (if e = TimeoutError \<or> e = CancelledError
              then [Log WARNING ''Preloading timed out, continuing startup'',
                    SystemEvent ''preloading_timeout'', ReadyFlagSet]
              else if is_Exception e
              then [Log WARNING ''Preloading failed, continuing startup'',
                    SystemEvent ''preloading_failed'', ReadyFlagSet]
              else [])
         | NeverEnds \<Rightarrow> [])"
    and "flow_of (block [await_preload w, mark_ready] s)
      = (case c of
           NeverEnds \<Rightarrow> Pending
         | RaisedInstead e \<Rightarrow> if is_Exception e \<or> e = CancelledError then Return () else Raise e
         | _ \<Rightarrow> Return ())"
    and "is_ready (state_of (block [await_preload w, mark_ready] s))
      = (case c of
           NeverEnds \<Rightarrow> is_ready s
         | RaisedInstead e \<Rightarrow> is_Exception e \<or> e = CancelledError \<or> is_ready s
         | _ \<Rightarrow> True)"
  using assms
  by (auto simp add: action_defs await_preload_def asyncio_wait_for_def mark_ready_def
      split: cancel_result.splits)

text \<open>What \<open>main\<close> records once the calls up to the created handler have returned.\<close>

lemma main_after_startup:
  assumes "flow_of (block ([emit [Log INFO ''Starting AI Trading Bot...'', SystemEvent ''bot_startup''],
              check_environment w] @ startup_steps w) (new_bot w)) = Return ()"
  shows "\<exists>s rest. trace_of (main w)
        = snd TradingBot @ trace_of (block ([emit [Log INFO ''Starting AI Trading Bot...'', SystemEvent ''bot_startup''],
              check_environment w] @ startup_steps w) (new_bot w))
          @ trace_of (block [await_preload w, mark_ready] s) @ rest
      \<and> s = state_of (block ([emit [Log INFO ''Starting AI Trading Bot...'', SystemEvent ''bot_startup''],
              check_environment w] @ startup_steps w) (new_bot w))
      \<and> list_all after_ready rest
      \<and> (flow_of (block [await_preload w, mark_ready] s) = Pending
           \<longrightarrow> flow_of (main w) = Pending
             \<and> state_of (main w) = state_of (block [await_preload w, mark_ready] s))"
proof -
  let ?A = "block ([emit [Log INFO ''Starting AI Trading Bot...'', SystemEvent ''bot_startup''],
              check_environment w] @ startup_steps w)"
  let ?B = "block [await_preload w, mark_ready]"
  let ?s = "state_of (?A (new_bot w))"
  obtain tail where tail: "trace_of (main_from w (new_bot w))
      = trace_of (main_try w (new_bot w)) @ tail" and r2: "list_all after_ready tail"
    using main_from_tail by blast
  have serve: "list_all after_ready (trace_of (block (serve_steps w) s'))" for s'
    by (rule emitsD [OF emits_serve_steps])
  have mt: "trace_of (main_try w (new_bot w))
      = trace_of (?A (new_bot w)) @
        (case flow_of (?B ?s) of
           Return x \<Rightarrow> trace_of (?B ?s) @ trace_of (block (serve_steps w) (state_of (?B ?s)))
         | Raise e \<Rightarrow> trace_of (?B ?s)
         | Pending \<Rightarrow> trace_of (?B ?s))"
    by (simp only: main_try_split and_then_trace assms flow.case)
  have "\<exists>r. trace_of (main_try w (new_bot w))
        = trace_of (?A (new_bot w)) @ trace_of (?B ?s) @ r \<and> list_all after_ready r"
  proof (cases "flow_of (?B ?s)")
    case (Return x)
    show ?thesis
      unfolding mt Return flow.case
      by (intro exI [of _ "trace_of (block (serve_steps w) (state_of (?B ?s)))"] conjI refl serve)
  next
    case (Raise e)
    show ?thesis
      unfolding mt Raise flow.case by (intro exI [of _ "[]"]) simp
  next
    case Pending
    show ?thesis
      unfolding mt Pending flow.case by (intro exI [of _ "[]"]) simp
  qed
  then obtain r where r: "trace_of (main_try w (new_bot w))
        = trace_of (?A (new_bot w)) @ trace_of (?B ?s) @ r" and r1: "list_all after_ready r"
    by blast
  have tr: "trace_of (main w)
      = snd TradingBot @ trace_of (?A (new_bot w)) @ trace_of (?B ?s) @ (r @ tail)"
    by (simp add: main_views tail r)
  have pend: "flow_of (main w) = Pending \<and> state_of (main w) = state_of (?B ?s)"
    if "flow_of (?B ?s) = Pending"
    using that assms
    by (simp add: main_views main_from_def main_try_split views)
  from tr r1 r2 pend show ?thesis
    by (intro exI [of _ ?s] exI [of _ "r @ tail"]) simp
qed

text \<open>
  C3 (as amended). Take a run of \<open>main\<close> that reaches the wait for the preload task
  (every call up to the created handler returns) and in which the 30 second timeout
  expires before the task ends. \<open>asyncio.wait_for\<close> then cancels the task and waits for
  it to end; the task is never retried: the run spawns it once, cancels it once and waits
  for it at most once. What follows depends on how the cancelled task ends.
  If it ends cancelled, the timeout warning is logged exactly once and is the only
  warning, and the readiness flag is set.
  If it returns a result all the same, no warning is logged, and the readiness flag is
  set.
  If it raises an exception \<open>e\<close> that derives from \<open>Exception\<close>, exactly one warning is
  logged (the timeout warning for \<open>TimeoutError\<close>, the failure warning otherwise), and
  the readiness flag is set.
  If it never ends, \<open>main\<close> stays in the wait: no warning is logged and the readiness
  flag is never set.
\<close>

theorem preload_timeout_by_task_end:
  assumes "validate_required_configs w = None" "config_security w = None"
    "new_rate_limiter w = None" "new_input_validator w = None"
    "start_metrics_server w = None" "setup_periodic_cleanup w = None"
    "runner_setup w = None" "port_var w \<noteq> Malformed" "site_start w = None"
    "new_telegram_handler w = None" "preload_wait w = TimedOut c"
  shows "filter is_create_task (trace_of (main w)) = [CreateTask PreloadTask]
    \<and> count_list (trace_of (main w)) (CancelTask PreloadTask) = 1
    \<and> length (filter wait_call (trace_of (main w))) \<le> 1
    \<and> (c = Cancelled \<longrightarrow>
          filter is_warning (trace_of (main w)) = [Log WARNING ''Preloading timed out, continuing startup'']
          \<and> count_list (trace_of (main w)) (SystemEvent ''preloading_timeout'') = 1
          \<and> count_list (trace_of (main w)) ReadyFlagSet = 1
          \<and> is_ready (state_of (main w)))
    \<and> (c = ReturnedAnyway \<longrightarrow>
          filter is_warning (trace_of (main w)) = []
          \<and> count_list (trace_of (main w)) ReadyFlagSet = 1
          \<and> is_ready (state_of (main w)))
    \<and> (c = RaisedInstead e \<and> is_Exception e \<longrightarrow>
          filter is_warning (trace_of (main w))
            = [if e = TimeoutError then Log WARNING ''Preloading timed out, continuing startup''
               else Log WARNING ''Preloading failed, continuing startup'']
          \<and> count_list (trace_of (main w)) ReadyFlagSet = 1
          \<and> is_ready (state_of (main w)))
    \<and> (c = NeverEnds \<longrightarrow>
          flow_of (main w) = Pending
          \<and> filter is_warning (trace_of (main w)) = []
          \<and> ReadyFlagSet \<notin> set (trace_of (main w))
          \<and> \<not> is_ready (state_of (main w)))"
proof -
  let ?A = "block ([emit [Log INFO ''Starting AI Trading Bot...'', SystemEvent ''bot_startup''],
              check_environment w] @ startup_steps w)"
  let ?B = "block [await_preload w, mark_ready]"
  note st = startup_reaches_wait [OF assms(1-10)]
  note tw = timed_out_wait [OF assms(11)]
  obtain s rest where tr: "trace_of (main w)
        = snd TradingBot @ trace_of (?A (new_bot w)) @ trace_of (?B s) @ rest"
    and s: "s = state_of (?A (new_bot w))"
    and rest: "list_all after_ready rest"
    and pend: "flow_of (?B s) = Pending
      \<longrightarrow> flow_of (main w) = Pending \<and> state_of (main w) = state_of (?B s)"
    using main_after_startup [OF st(1)] by blast
  note f = after_ready_filters [OF rest]
  have ready: "is_ready (state_of (main w))" if "ReadyFlagSet \<in> set (trace_of (?B s))"
  proof -
    from that have "ReadyFlagSet \<in> set (trace_of (main_from w (new_bot w)))"
      using tr by (simp add: main_views TradingBot_def)
    then show ?thesis
      using tracksD [OF tracks_main_from, of "new_bot w" w] by (simp add: main_views)
  qed
  have a1: "filter is_create_task (trace_of (main w)) = [CreateTask PreloadTask]"
    unfolding tr st(2) tw(1) by (simp add: f TradingBot_def split: cancel_result.splits)
  have a2: "count_list (trace_of (main w)) (CancelTask PreloadTask) = 1"
    unfolding tr st(2) tw(1) by (simp add: f TradingBot_def split: cancel_result.splits)
  have a3: "length (filter wait_call (trace_of (main w))) \<le> 1"
    unfolding tr st(2) tw(1) by (simp add: f TradingBot_def split: cancel_result.splits)
  have b: "filter is_warning (trace_of (main w)) = [Log WARNING ''Preloading timed out, continuing startup'']
          \<and> count_list (trace_of (main w)) (SystemEvent ''preloading_timeout'') = 1
          \<and> count_list (trace_of (main w)) ReadyFlagSet = 1
          \<and> is_ready (state_of (main w))" if c: "c = Cancelled"
  proof -
    have t: "trace_of (?B s) = [CancelTask PreloadTask, Failed (WaitFor PreloadTask 30),
        Log WARNING ''Preloading timed out, continuing startup'',
        SystemEvent ''preloading_timeout'', ReadyFlagSet]"
      using tw(1) [of s] c by simp
    have "is_ready (state_of (main w))"
      by (rule ready) (simp only: t, simp)
    moreover have "filter is_warning (trace_of (main w))
        = [Log WARNING ''Preloading timed out, continuing startup'']"
      unfolding tr st(2) t by (simp add: f TradingBot_def)
    moreover have "count_list (trace_of (main w)) (SystemEvent ''preloading_timeout'') = 1"
      unfolding tr st(2) t by (simp add: f TradingBot_def)
    moreover have "count_list (trace_of (main w)) ReadyFlagSet = 1"
      unfolding tr st(2) t by (simp add: f TradingBot_def)
    ultimately show ?thesis by simp
  qed
  have r: "filter is_warning (trace_of (main w)) = []
          \<and> count_list (trace_of (main w)) ReadyFlagSet = 1
          \<and> is_ready (state_of (main w))" if c: "c = ReturnedAnyway"
  proof -
    have t: "trace_of (?B s) = [CancelTask PreloadTask, WaitFor PreloadTask 30,
        Log INFO ''Preloading completed successfully'',
        SystemEvent ''preloading_completed'', ReadyFlagSet]"
      using tw(1) [of s] c by simp
    have "is_ready (state_of (main w))"
      by (rule ready) (simp only: t, simp)
    moreover have "filter is_warning (trace_of (main w)) = []"
      unfolding tr st(2) t by (simp add: f TradingBot_def)
    moreover have "count_list (trace_of (main w)) ReadyFlagSet = 1"
      unfolding tr st(2) t by (simp add: f TradingBot_def)
    ultimately show ?thesis by simp
  qed
  have x: "filter is_warning (trace_of (main w))
            = [if e = TimeoutError then Log WARNING ''Preloading timed out, continuing startup''
               else Log WARNING ''Preloading failed, continuing startup'']
          \<and> count_list (trace_of (main w)) ReadyFlagSet = 1
          \<and> is_ready (state_of (main w))" if c: "c = RaisedInstead e" and e: "is_Exception e"
  proof -
    have t: "trace_of (?B s) = [CancelTask PreloadTask, Failed (WaitFor PreloadTask 30),
        (if e = TimeoutError then Log WARNING ''Preloading timed out, continuing startup''
         else Log WARNING ''Preloading failed, continuing startup''),
        SystemEvent (if e = TimeoutError then ''preloading_timeout'' else ''preloading_failed''),
        ReadyFlagSet]"
      using tw(1) [of s] c e by auto
    have "is_ready (state_of (main w))"
      by (rule ready) (simp only: t, simp)
    moreover have "filter is_warning (trace_of (main w))
        = [if e = TimeoutError then Log WARNING ''Preloading timed out, continuing startup''
           else Log WARNING ''Preloading failed, continuing startup'']"
      unfolding tr st(2) t by (simp add: f TradingBot_def)
    moreover have "count_list (trace_of (main w)) ReadyFlagSet = 1"
      unfolding tr st(2) t by (simp add: f TradingBot_def)
    ultimately show ?thesis by simp
  qed
  have n: "flow_of (main w) = Pending
          \<and> filter is_warning (trace_of (main w)) = []
          \<and> ReadyFlagSet \<notin> set (trace_of (main w))
          \<and> \<not> is_ready (state_of (main w))" if c: "c = NeverEnds"
  proof -
    have t: "trace_of (?B s) = [CancelTask PreloadTask]"
      using tw(1) [of s] c by simp
    have p: "flow_of (?B s) = Pending"
      using tw(2) [of s] c by simp
    have "\<not> is_ready (state_of (?B s))"
      using tw(3) [of s] c st(3) s by simp
    with pend p have "flow_of (main w) = Pending" "\<not> is_ready (state_of (main w))"
      by simp_all
    moreover have "filter is_warning (trace_of (main w)) = []"
      unfolding tr st(2) t by (simp add: f TradingBot_def)
    moreover have "ReadyFlagSet \<notin> set (trace_of (main w))"
      unfolding tr st(2) t by (simp add: f TradingBot_def)
    ultimately show ?thesis by simp
  qed
  from a1 a2 a3 b r x n show ?thesis by blast
qed

theorem preload_timeout_by_task_end_witness:
  "is_ready (state_of (main (calm\<lparr>preload_wait := TimedOut Cancelled\<rparr>)))
   \<and> filter is_warning (trace_of (main (calm\<lparr>preload_wait := TimedOut Cancelled\<rparr>)))
       = [Log WARNING ''Preloading timed out, continuing startup'']
   \<and> is_ready (state_of (main (calm\<lparr>preload_wait := TimedOut ReturnedAnyway\<rparr>)))
   \<and> filter is_warning (trace_of (main (calm\<lparr>preload_wait := TimedOut ReturnedAnyway\<rparr>))) = []
   \<and> is_ready (state_of (main (calm\<lparr>preload_wait := TimedOut (RaisedInstead OSError)\<rparr>)))
   \<and> filter is_warning
         (trace_of (main (calm\<lparr>preload_wait := TimedOut (RaisedInstead OSError)\<rparr>)))
       = [Log WARNING ''Preloading failed, continuing startup'']
   \<and> flow_of (main (calm\<lparr>preload_wait := TimedOut NeverEnds\<rparr>)) = Pending
   \<and> \<not> is_ready (state_of (main (calm\<lparr>preload_wait := TimedOut NeverEnds\<rparr>)))"
  using preload_timeout_by_task_end
      [of "calm\<lparr>preload_wait := TimedOut Cancelled\<rparr>" Cancelled]
    preload_timeout_by_task_end
      [of "calm\<lparr>preload_wait := TimedOut ReturnedAnyway\<rparr>" ReturnedAnyway]
    preload_timeout_by_task_end
      [of "calm\<lparr>preload_wait := TimedOut (RaisedInstead OSError)\<rparr>" "RaisedInstead OSError"
          OSError]
    preload_timeout_by_task_end
      [of "calm\<lparr>preload_wait := TimedOut NeverEnds\<rparr>" NeverEnds]
  by (simp add: calm_def)

text \<open>
  The timeout expires and the preload task, once cancelled, does not end: the run has
  cancelled the task and waits for it, logs no warning, and never sets the readiness
  flag.
\<close>

theorem preload_timeout_waits_counterexample:
  "preload_wait (calm\<lparr>preload_wait := TimedOut NeverEnds\<rparr>) = TimedOut NeverEnds
   \<and> CancelTask PreloadTask \<in> set (trace_of (main (calm\<lparr>preload_wait := TimedOut NeverEnds\<rparr>)))
   \<and> flow_of (main (calm\<lparr>preload_wait := TimedOut NeverEnds\<rparr>)) = Pending
   \<and> filter is_warning (trace_of (main (calm\<lparr>preload_wait := TimedOut NeverEnds\<rparr>))) = []
   \<and> ReadyFlagSet \<notin> set (trace_of (main (calm\<lparr>preload_wait := TimedOut NeverEnds\<rparr>)))
   \<and> \<not> is_ready (state_of (main (calm\<lparr>preload_wait := TimedOut NeverEnds\<rparr>)))"
  by (simp add: action_defs program_defs calm_def)

subsection \<open>A configuration that does not validate\<close>

lemma triple_eta: "x = (state_of x, trace_of x, flow_of x)"
  by (simp add: state_of_def trace_of_def flow_of_def)

lemma validate_keeps:
  "health_server (state_of (validate_environment w s)) = health_server s"
  "telegram_handler (state_of (validate_environment w s)) = telegram_handler s"
  "is_ready (state_of (validate_environment w s)) = is_ready s"
  by (simp_all add: validate_environment_def validate_try_def action_defs
      split: option.splits)

lemma validate_starts_nothing: "emits (\<lambda>e. \<not> service_start e) (validate_environment w)"
  by (rule emits_validate) simp_all

lemma validate_never_exits: "emits (\<lambda>e. e \<noteq> SysExit c) (validate_environment w)"
  by (rule emits_validate) simp_all

lemma new_bot_fields:
  "health_server (new_bot w) = None" "telegram_handler (new_bot w) = None"
  "\<not> is_ready (new_bot w)"
  by (simp_all add: new_bot_def TradingBot_def)

lemma main_finally_without_server:
  "health_server s = None \<Longrightarrow> main_finally w s = (s, [SystemEvent ''bot_shutdown_complete''], Return ())"
  by (simp add: main_finally_def action_defs)

lemma check_environment_fails:
  assumes "flow_of (validate_environment w s) = Return False"
  shows "flow_of (check_environment w s) = Raise (SystemExit 1)"
    and "trace_of (check_environment w s)
      = trace_of (validate_environment w s)
        @ [Log ERROR ''Environment validation failed, exiting...'',
           SecurityEvent ''startup_failed'', SysExit 1]"
    and "state_of (check_environment w s) = state_of (validate_environment w s)"
  using assms by (simp_all add: check_environment_def views basic_views)

lemma main_try_fails:
  assumes "flow_of (validate_environment w s) = Return False"
  shows "flow_of (main_try w s) = Raise (SystemExit 1)"
    and "trace_of (main_try w s)
      = [Log INFO ''Starting AI Trading Bot...'', SystemEvent ''bot_startup'']
        @ trace_of (validate_environment w s)
        @ [Log ERROR ''Environment validation failed, exiting...'',
           SecurityEvent ''startup_failed'', SysExit 1]"
    and "state_of (main_try w s) = state_of (validate_environment w s)"
  using check_environment_fails [OF assms]
  by (simp_all add: main_try_def views basic_views)

lemma main_fails:
  assumes "flow_of (validate_environment w (new_bot w)) = Return False"
  shows "flow_of (main w) = Raise (SystemExit 1)"
    and "trace_of (main w)
      = snd TradingBot
        @ [Log INFO ''Starting AI Trading Bot...'', SystemEvent ''bot_startup'']
        @ trace_of (validate_environment w (new_bot w))
        @ [Log ERROR ''Environment validation failed, exiting...'',
           SecurityEvent ''startup_failed'', SysExit 1,
           SystemEvent ''bot_shutdown_complete'']"
    and "state_of (main w) = state_of (validate_environment w (new_bot w))"
proof -
  note mt = main_try_fails [OF assms]
  have ex: "flow_of (try_except (main_try w) main_except (new_bot w)) = Raise (SystemExit 1)"
    "trace_of (try_except (main_try w) main_except (new_bot w)) = trace_of (main_try w (new_bot w))"
    "state_of (try_except (main_try w) main_except (new_bot w))
       = state_of (validate_environment w (new_bot w))"
    by (simp_all add: views mt(1,3) main_except_def)
  have fin: "main_finally w (state_of (validate_environment w (new_bot w)))
      = (state_of (validate_environment w (new_bot w)),
         [SystemEvent ''bot_shutdown_complete''], Return ())"
    by (rule main_finally_without_server) (simp add: validate_keeps new_bot_fields)
  show "flow_of (main w) = Raise (SystemExit 1)"
    by (simp add: main_views main_from_def try_finally_flow ex fin triple_views)
  show "trace_of (main w)
      = snd TradingBot
        @ [Log INFO ''Starting AI Trading Bot...'', SystemEvent ''bot_startup'']
        @ trace_of (validate_environment w (new_bot w))
        @ [Log ERROR ''Environment validation failed, exiting...'',
           SecurityEvent ''startup_failed'', SysExit 1,
           SystemEvent ''bot_shutdown_complete'']"
    by (simp add: main_views main_from_def try_finally_trace ex fin triple_views mt(2))
  show "state_of (main w) = state_of (validate_environment w (new_bot w))"
    by (simp add: main_views main_from_def try_finally_state ex fin triple_views)
qed

lemma script_exit:
  "flow_of (main w) = Raise (SystemExit c) \<Longrightarrow> snd (script w) = Exited c"
  by (subst (asm) flow_of_def) (auto simp: script_def split: prod.splits)

lemma init_bot_fails:
  assumes "flow_of (validate_environment w s) = Return False"
  shows "flow_of (init_bot w s) = Return ()"
    and "trace_of (init_bot w s)
      = trace_of (validate_environment w s) @ [Log ERROR ''Environment validation failed'']"
    and "state_of (init_bot w s) = state_of (validate_environment w s)"
  using assms by (simp_all add: init_bot_def views basic_views)

lemma create_app_first:
  "create_app w True initial_globals
     = (\<lparr>app = Some (Application [''/health'', ''/ready'', ''/metrics'', ''/'']),
         bot_instance = Some (new_bot w)\<rparr>,
        [NewApplication, Log INFO ''Trading Bot initializing...'',
         SystemEvent ''bot_initialization'', AddRoute ''/health'', AddRoute ''/ready'',
         AddRoute ''/metrics'', AddRoute ''/'', CreateTask InitBotTask],
        Return (Application [''/health'', ''/ready'', ''/metrics'', ''/'']))"
  by (simp add: create_app_def initial_globals_def asyncio_create_task_def action_defs
      TradingBot_def Let_def)

lemma web_deployment_first:
  "web_deployment w initial_globals
     = ((\<lparr>app = Some (Application [''/health'', ''/ready'', ''/metrics'', ''/'']),
          bot_instance = Some (state_of (init_bot w (new_bot w)))\<rparr>,
         [NewApplication, Log INFO ''Trading Bot initializing...'',
          SystemEvent ''bot_initialization'', AddRoute ''/health'', AddRoute ''/ready'',
          AddRoute ''/metrics'', AddRoute ''/'', CreateTask InitBotTask]
         @ trace_of (init_bot w (new_bot w)),
         Return (Application [''/health'', ''/ready'', ''/metrics'', ''/''])),
        Some (flow_of (init_bot w (new_bot w))))"
proof -
  obtain s' t' r' where ib: "init_bot w (new_bot w) = (s', t', r')"
    by (cases "init_bot w (new_bot w)")
  show ?thesis
    unfolding web_deployment_def create_app_first
    by (simp add: ib triple_views initial_globals_def)
qed

text \<open>
  C2 (as amended). When \<open>validate_environment\<close> returns false: \<open>main\<close> spawns no task
  and starts neither the metrics server, the health server nor the handler, leaves the
  readiness flag false and ends in \<open>SystemExit(1)\<close>, so the process run as a script exits
  with status 1. In \<open>create_app\<close>, the web application and its routes exist and the
  initialisation task is scheduled before validation runs; that task then logs the
  failure and returns: it starts no metrics server and no handler and leaves the flag
  false, but nothing exits.
\<close>

theorem validation_failure_blocks_startup:
  assumes "flow_of (validate_environment w (new_bot w)) = Return False"
  shows "flow_of (main w) = Raise (SystemExit 1)
    \<and> snd (script w) = Exited 1
    \<and> \<not> list_ex service_start (trace_of (main w))
    \<and> health_server (state_of (main w)) = None
    \<and> telegram_handler (state_of (main w)) = None
    \<and> \<not> is_ready (state_of (main w))
    \<and> snd (web_deployment w initial_globals) = Some (Return ())
    \<and> (\<forall>c. SysExit c \<notin> set (trace_of (fst (web_deployment w initial_globals))))
    \<and> filter service_start (trace_of (fst (web_deployment w initial_globals)))
        = [CreateTask InitBotTask]
    \<and> (\<exists>self. bot_instance (state_of (fst (web_deployment w initial_globals))) = Some self
          \<and> telegram_handler self = None \<and> \<not> is_ready self)"
proof -
  note m = main_fails [OF assms]
  note ib = init_bot_fails [OF assms]
  have quiet: "list_all (\<lambda>e. \<not> service_start e) (trace_of (validate_environment w (new_bot w)))"
    by (rule emitsD [OF validate_starts_nothing])
  have noexit: "list_all (\<lambda>e. e \<noteq> SysExit c) (trace_of (validate_environment w (new_bot w)))"
    for c by (rule emitsD [OF validate_never_exits])
  have c1: "snd (script w) = Exited 1"
    by (rule script_exit [OF m(1)])
  have c2: "\<not> list_ex service_start (trace_of (main w))"
    using quiet by (simp add: m(2) TradingBot_def list_ex_iff list_all_iff)
  have c3: "health_server (state_of (main w)) = None
      \<and> telegram_handler (state_of (main w)) = None \<and> \<not> is_ready (state_of (main w))"
    by (simp add: m(3) validate_keeps new_bot_fields)
  have c4: "snd (web_deployment w initial_globals) = Some (Return ())"
    by (simp add: web_deployment_first ib(1))
  have c5: "SysExit c \<notin> set (trace_of (fst (web_deployment w initial_globals)))" for c
    using noexit [of c] by (auto simp: web_deployment_first triple_views ib(2) list_all_iff)
  have "filter service_start (trace_of (validate_environment w (new_bot w))) = []"
    using quiet by (simp add: filter_empty_conv list_all_iff)
  then have c6: "filter service_start (trace_of (fst (web_deployment w initial_globals)))
      = [CreateTask InitBotTask]"
    by (simp add: web_deployment_first triple_views ib(2))
  have c7: "\<exists>self. bot_instance (state_of (fst (web_deployment w initial_globals))) = Some self
      \<and> telegram_handler self = None \<and> \<not> is_ready self"
    by (simp add: web_deployment_first triple_views ib(3) validate_keeps new_bot_fields)
  from m(1) c1 c2 c3 c4 c5 c6 c7 show ?thesis by blast
qed

theorem validation_failure_blocks_startup_witness:
  "flow_of (validate_environment (calm\<lparr>validate_required_configs := Some ValueError\<rparr>)
      (new_bot (calm\<lparr>validate_required_configs := Some ValueError\<rparr>))) = Return False
   \<and> flow_of (main (calm\<lparr>validate_required_configs := Some ValueError\<rparr>))
       = Raise (SystemExit 1)
   \<and> snd (script (calm\<lparr>validate_required_configs := Some ValueError\<rparr>)) = Exited 1
   \<and> \<not> list_ex service_start
         (trace_of (main (calm\<lparr>validate_required_configs := Some ValueError\<rparr>)))"
proof -
  let ?w = "calm\<lparr>validate_required_configs := Some ValueError\<rparr>"
  have h: "flow_of (validate_environment ?w (new_bot ?w)) = Return False"
    by (simp add: validate_environment_def validate_try_def action_defs)
  from validation_failure_blocks_startup [OF h] h show ?thesis by blast
qed

text \<open>
  A required credential is missing and the module is served through \<open>create_app\<close>: the
  application has been created, the initialisation task returns, and no exit is
  recorded.
\<close>

theorem create_app_no_exit_counterexample:
  "flow_of (validate_environment (calm\<lparr>validate_required_configs := Some ValueError\<rparr>)
      (new_bot (calm\<lparr>validate_required_configs := Some ValueError\<rparr>))) = Return False
   \<and> snd (web_deployment (calm\<lparr>validate_required_configs := Some ValueError\<rparr>) initial_globals)
       = Some (Return ())
   \<and> SysExit 1 \<notin> set (trace_of (fst
         (web_deployment (calm\<lparr>validate_required_configs := Some ValueError\<rparr>) initial_globals)))
   \<and> NewApplication \<in> set (trace_of (fst
         (web_deployment (calm\<lparr>validate_required_configs := Some ValueError\<rparr>) initial_globals)))"
  by (simp add: action_defs program_defs Let_def calm_def)

subsection \<open>Order of the startup events\<close>

lemma precedes_append:
  "precedes A B (xs @ ys) =
     (if list_ex A xs then precedes A B xs else \<not> list_ex B xs \<and> precedes A B ys)"
  by (induction xs) simp_all

lemma precedes_quiet: "list_all (\<lambda>e. \<not> B e) xs \<Longrightarrow> precedes A B xs"
  by (induction xs) simp_all

lemma precedes_without: "precedes A B xs \<Longrightarrow> \<not> list_ex A xs \<Longrightarrow> \<not> list_ex B xs"
  by (induction xs) (auto split: if_splits)

lemma precedes_appendI:
  "precedes A B xs \<Longrightarrow> list_ex A xs \<or> precedes A B ys \<Longrightarrow> precedes A B (xs @ ys)"
  using precedes_without [of A B xs] by (auto simp: precedes_append)

text \<open>What \<open>precedes\<close> says, position by position.\<close>

lemma precedes_iff:
  "precedes A B t \<longleftrightarrow> (\<forall>i<length t. B (t ! i) \<longrightarrow> (\<exists>j\<le>i. A (t ! j)))"
proof (induction t)
  case Nil
  show ?case by simp
next
  case (Cons x t)
  show ?case
  proof (cases "A x")
    case True
    then show ?thesis by auto
  next
    case False
    show ?thesis
    proof (cases "B x")
      case True
      with False show ?thesis by auto
    next
      case nb: False
      have "(\<forall>i<length (x # t). B ((x # t) ! i) \<longrightarrow> (\<exists>j\<le>i. A ((x # t) ! j)))
          \<longleftrightarrow> (\<forall>i<length t. B (t ! i) \<longrightarrow> (\<exists>j\<le>i. A (t ! j)))"
      proof
        assume h: "\<forall>i<length (x # t). B ((x # t) ! i) \<longrightarrow> (\<exists>j\<le>i. A ((x # t) ! j))"
        show "\<forall>i<length t. B (t ! i) \<longrightarrow> (\<exists>j\<le>i. A (t ! j))"
        proof (intro allI impI)
          fix i assume i: "i < length t" "B (t ! i)"
          with h [rule_format, of "Suc i"] obtain j where j: "j \<le> Suc i" "A ((x # t) ! j)"
            by auto
          with \<open>\<not> A x\<close> obtain k where "j = Suc k" by (cases j) auto
          with j show "\<exists>j\<le>i. A (t ! j)" by auto
        qed
      next
        assume h: "\<forall>i<length t. B (t ! i) \<longrightarrow> (\<exists>j\<le>i. A (t ! j))"
        show "\<forall>i<length (x # t). B ((x # t) ! i) \<longrightarrow> (\<exists>j\<le>i. A ((x # t) ! j))"
        proof (intro allI impI)
          fix i assume i: "i < length (x # t)" "B ((x # t) ! i)"
          with nb obtain k where k: "i = Suc k" by (cases i) auto
          with i h [rule_format, of k] obtain j where "j \<le> k" "A (t ! j)" by auto
          with k have "Suc j \<le> i \<and> A ((x # t) ! Suc j)" by simp
          then show "\<exists>j\<le>i. A ((x # t) ! j)" by blast
        qed
      qed
      with False nb Cons.IH show ?thesis by simp
    qed
  qed
qed

lemma guardedD: "guarded A B a \<Longrightarrow> precedes A B (trace_of (a s))"
  by (simp add: guarded_def)

lemma guarded_quiet: "emits (\<lambda>e. \<not> B e) a \<Longrightarrow> guarded A B a"
  by (simp add: guarded_def emits_def precedes_quiet)

lemma guarded_and_then:
  assumes "guarded A B a"
    and "\<And>s x. flow_of (a s) = Return x \<Longrightarrow> list_ex A (trace_of (a s)) \<or> guarded A B (f x)"
  shows "guarded A B (and_then a f)"
  unfolding guarded_def
proof
  fix s
  show "precedes A B (trace_of (and_then a f s))"
  proof (cases "flow_of (a s)")
    case (Return x)
    from assms(2) [OF Return]
    have "list_ex A (trace_of (a s)) \<or> precedes A B (trace_of (f x (state_of (a s))))"
      by (auto dest: guardedD)
    with guardedD [OF assms(1), of s] Return show ?thesis
      by (simp add: and_then_trace precedes_appendI)
  qed (simp_all add: and_then_trace guardedD [OF assms(1)])
qed

lemma guarded_block_quiet:
  "emits (\<lambda>e. \<not> B e) a \<Longrightarrow> guarded A B (block as) \<Longrightarrow> guarded A B (block (a # as))"
  by (simp add: guarded_and_then guarded_quiet)

lemma guarded_block_sure:
  "emits (\<lambda>e. \<not> B e) a
    \<Longrightarrow> (\<And>s x. flow_of (a s) = Return x \<Longrightarrow> list_ex A (trace_of (a s)))
    \<Longrightarrow> guarded A B (block (a # as))"
  by (simp add: guarded_and_then guarded_quiet)

lemma guarded_try_except:
  assumes "guarded A B body" and "\<And>e h. hs e = Some h \<Longrightarrow> emits (\<lambda>e. \<not> B e) h"
  shows "guarded A B (try_except body hs)"
  unfolding guarded_def
proof
  fix s
  show "precedes A B (trace_of (try_except body hs s))"
  proof (cases "flow_of (body s)")
    case (Raise e)
    show ?thesis
    proof (cases "hs e")
      case None
      with Raise show ?thesis by (simp add: try_except_trace guardedD [OF assms(1)])
    next
      case (Some h)
      have "precedes A B (trace_of (h (state_of (body s))))"
        by (rule precedes_quiet [OF emitsD [OF assms(2) [OF Some]]])
      with Raise Some guardedD [OF assms(1), of s] show ?thesis
        by (simp add: try_except_trace precedes_appendI)
    qed
  qed (simp_all add: try_except_trace guardedD [OF assms(1)])
qed

lemma guarded_try_finally:
  assumes "guarded A B body" and "emits (\<lambda>e. \<not> B e) fin"
  shows "guarded A B (try_finally body fin)"
  unfolding guarded_def
proof
  fix s
  have fin: "precedes A B (trace_of (fin (state_of (body s))))"
    by (rule precedes_quiet [OF emitsD [OF assms(2)]])
  show "precedes A B (trace_of (try_finally body fin s))"
    using fin guardedD [OF assms(1), of s]
    by (cases "flow_of (body s)") (simp_all add: try_finally_trace precedes_appendI)
qed

text \<open>An ordering that holds for the \<open>try\<close> body of \<open>main\<close> holds for \<open>main\<close>.\<close>

lemma guarded_main:
  assumes "guarded A B (main_try w)"
    and "\<And>e. after_ready e \<Longrightarrow> \<not> B e"
    and "\<not> B (Log INFO ''Trading Bot initializing...'')"
    and "\<not> B (SystemEvent ''bot_initialization'')"
    and "\<not> A (Log INFO ''Trading Bot initializing...'')"
    and "\<not> A (SystemEvent ''bot_initialization'')"
  shows "precedes A B (trace_of (main w))"
proof -
  have handlers: "emits (\<lambda>e. \<not> B e) h" if "main_except e = Some h" for e h
    by (rule emits_mono [OF emits_main_except [OF that]]) (rule assms(2))
  have fin: "emits (\<lambda>e. \<not> B e) (main_finally w)"
    by (rule emits_mono [OF emits_main_finally]) (rule assms(2))
  have "guarded A B (main_from w)"
    unfolding main_from_def
    by (intro guarded_try_finally guarded_try_except assms(1) fin) (rule handlers)
  from guardedD [OF this, of "new_bot w"] show ?thesis
    by (simp add: main_views TradingBot_def assms)
qed

lemma validated_when_tried:
  "flow_of (validate_try w s) = Return x
    \<Longrightarrow> list_ex (\<lambda>e. e = SystemEvent ''environment_validation'') (trace_of (validate_try w s))"
  by (simp add: validate_try_def action_defs split: option.splits)

lemma validated_when_true:
  assumes "flow_of (validate_environment w s) = Return True"
  shows "list_ex (\<lambda>e. e = SystemEvent ''environment_validation'')
          (trace_of (validate_environment w s))"
proof (cases "flow_of (validate_try w s)")
  case (Return x)
  with validated_when_tried [OF Return] show ?thesis
    by (simp add: validate_environment_def try_except_trace)
next
  case (Raise e)
  with assms show ?thesis
    by (simp add: validate_environment_def views basic_views triple_views split: if_splits)
next
  case Pending
  with assms show ?thesis
    by (simp add: validate_environment_def try_except_flow)
qed

lemma validated_when_checked:
  "flow_of (check_environment w s) = Return x
    \<Longrightarrow> list_ex (\<lambda>e. e = SystemEvent ''environment_validation'')
          (trace_of (check_environment w s))"
proof -
  assume h: "flow_of (check_environment w s) = Return x"
  then have "flow_of (validate_environment w s) = Return True"
    by (auto simp: check_environment_def views basic_views split: flow.splits if_splits)
  from validated_when_true [OF this] this show ?thesis
    by (simp add: check_environment_def views basic_views)
qed

lemma site_started_when_returned:
  "flow_of (and_then (start_health_server w)
       (\<lambda>r. assign (\<lambda>self. self\<lparr>health_server := Some r\<rparr>)) s) = Return x
    \<Longrightarrow> list_ex is_site_start
          (trace_of (and_then (start_health_server w)
             (\<lambda>r. assign (\<lambda>self. self\<lparr>health_server := Some r\<rparr>)) s))"
  by (simp add: start_health_server_def read_port_def action_defs
      split: option.splits port_setting.splits)

lemma quiet_check_environment:
  assumes "\<And>e. B e \<Longrightarrow> service_start e \<or> e = ReadyFlagSet"
  shows "emits (\<lambda>e. \<not> B e) (check_environment w)"
  by (rule emits_check_environment, rule emits_validate) (auto dest: assms)

lemma quiet_start_health_server:
  assumes "\<And>e. B e \<Longrightarrow> e = NewTelegramHandler \<or> e = Failed NewTelegramHandler \<or> e = ReadyFlagSet"
  shows "emits (\<lambda>e. \<not> B e)
     (and_then (start_health_server w) (\<lambda>r. assign (\<lambda>self. self\<lparr>health_server := Some r\<rparr>)))"
  by (rule emits_and_then, rule emits_start_health_server) (auto dest: assms intro: emits_assign)

lemma validation_before_tasks:
  "guarded (\<lambda>e. e = SystemEvent ''environment_validation'') is_create_task (main_try w)"
  unfolding main_try_def append.simps
  apply (rule guarded_block_quiet)
  subgoal by (rule emits_emit) simp
  apply (rule guarded_block_sure)
  subgoal by (rule emits_check_environment, rule emits_validate) simp_all
  subgoal by (erule validated_when_checked)
  done

lemma server_before_handler:
  "guarded is_site_start (\<lambda>e. e = NewTelegramHandler \<or> e = Failed NewTelegramHandler)
     (main_try w)"
  unfolding main_try_def startup_steps_def append.simps
  apply (rule guarded_block_quiet)
  subgoal by (rule emits_emit) simp
  apply (rule guarded_block_quiet)
  subgoal by (rule quiet_check_environment) auto
  apply (rule guarded_block_quiet)
  subgoal by (rule emits_emit) simp
  apply (rule guarded_block_quiet)
  subgoal by (rule emits_emit) simp
  apply (rule guarded_block_quiet)
  subgoal by (rule emits_call) simp_all
  apply (rule guarded_block_quiet)
  subgoal by (rule emits_call) simp_all
  apply (rule guarded_block_sure)
  subgoal by (rule emits_and_then, rule emits_start_health_server) (simp_all add: emits_assign)
  subgoal by (erule site_started_when_returned)
  done

lemma handler_before_flag:
  "guarded (\<lambda>e. e = NewTelegramHandler) (\<lambda>e. e = ReadyFlagSet) (main_try w)"
  unfolding main_try_def startup_steps_def append.simps
  apply (rule guarded_block_quiet)
  subgoal by (rule emits_emit) simp
  apply (rule guarded_block_quiet)
  subgoal by (rule quiet_check_environment) auto
  apply (rule guarded_block_quiet)
  subgoal by (rule emits_emit) simp
  apply (rule guarded_block_quiet)
  subgoal by (rule emits_emit) simp
  apply (rule guarded_block_quiet)
  subgoal by (rule emits_call) simp_all
  apply (rule guarded_block_quiet)
  subgoal by (rule emits_call) simp_all
  apply (rule guarded_block_quiet)
  subgoal by (rule quiet_start_health_server) auto
  apply (rule guarded_block_sure)
  subgoal by (rule emits_call) simp_all
  subgoal by (simp add: basic_views split: option.splits)
  done

lemma init_bot_validation_first:
  "guarded (\<lambda>e. e = SystemEvent ''environment_validation'')
     (\<lambda>e. service_start e \<and> e \<noteq> CreateTask InitBotTask) (init_bot w)"
  unfolding init_bot_def
proof (rule guarded_try_except)
  show "emits (\<lambda>e. \<not> (service_start e \<and> e \<noteq> CreateTask InitBotTask)) h"
    if "(if is_Exception e then Some (emit [Log ERROR ''Bot initialization failed''])
         else None) = Some h" for e h
    using that by (auto split: if_splits intro!: emits_emit)
next
  let ?A = "\<lambda>e. e = SystemEvent ''environment_validation''"
  let ?B = "\<lambda>e. service_start e \<and> e \<noteq> CreateTask InitBotTask"
  show "guarded ?A ?B (and_then (validate_environment w)
     (\<lambda>ok. if \<not> ok then emit [Log ERROR ''Environment validation failed'']
           else block
                 [call (StartMetricsServer 9090) (start_metrics_server w),
                  call SetupPeriodicCleanup (setup_periodic_cleanup w),
                  call NewTelegramHandler (new_telegram_handler w),
                  assign (\<lambda>self. self\<lparr>telegram_handler := Some TelegramHandler\<rparr>),
                  mark_ready,
                  call (SetReadyStatus True) (set_ready_status w),
                  emit [Log INFO ''Bot initialized successfully for web deployment''],
                  asyncio_create_task True HandlerRunTask]))"
  proof (rule guarded_and_then)
    show "guarded ?A ?B (validate_environment w)"
      by (rule guarded_quiet, rule emits_mono [OF validate_starts_nothing]) simp
  next
    fix s x
    assume r: "flow_of (validate_environment w s) = Return x"
    show "list_ex ?A (trace_of (validate_environment w s))
        \<or> guarded ?A ?B (if \<not> x then emit [Log ERROR ''Environment validation failed'']
           else block
                 [call (StartMetricsServer 9090) (start_metrics_server w),
                  call SetupPeriodicCleanup (setup_periodic_cleanup w),
                  call NewTelegramHandler (new_telegram_handler w),
                  assign (\<lambda>self. self\<lparr>telegram_handler := Some TelegramHandler\<rparr>),
                  mark_ready,
                  call (SetReadyStatus True) (set_ready_status w),
                  emit [Log INFO ''Bot initialized successfully for web deployment''],
                  asyncio_create_task True HandlerRunTask])"
    proof (cases x)
      case True
      with r have "flow_of (validate_environment w s) = Return True" by simp
      from validated_when_true [OF this] show ?thesis ..
    next
      case False
      then show ?thesis by (simp add: guarded_quiet emits_emit)
    qed
  qed
qed

lemma init_bot_handler_before_flag:
  "guarded (\<lambda>e. e = NewTelegramHandler) (\<lambda>e. e = ReadyFlagSet) (init_bot w)"
  unfolding init_bot_def
proof (rule guarded_try_except)
  show "emits (\<lambda>e. \<not> e = ReadyFlagSet) h"
    if "(if is_Exception e then Some (emit [Log ERROR ''Bot initialization failed''])
         else None) = Some h" for e h
    using that by (auto split: if_splits intro!: emits_emit)
next
  let ?A = "\<lambda>e. e = NewTelegramHandler"
  let ?B = "\<lambda>e. e = ReadyFlagSet"
  let ?steps = "block
                 [call (StartMetricsServer 9090) (start_metrics_server w),
                  call SetupPeriodicCleanup (setup_periodic_cleanup w),
                  call NewTelegramHandler (new_telegram_handler w),
                  assign (\<lambda>self. self\<lparr>telegram_handler := Some TelegramHandler\<rparr>),
                  mark_ready,
                  call (SetReadyStatus True) (set_ready_status w),
                  emit [Log INFO ''Bot initialized successfully for web deployment''],
                  asyncio_create_task True HandlerRunTask]"
  have steps: "guarded ?A ?B ?steps"
    apply (rule guarded_block_quiet)
    subgoal by (rule emits_call) simp_all
    apply (rule guarded_block_quiet)
    subgoal by (rule emits_call) simp_all
    apply (rule guarded_block_sure)
    subgoal by (rule emits_call) simp_all
    subgoal by (simp add: basic_views split: option.splits)
    done
  show "guarded ?A ?B (and_then (validate_environment w)
     (\<lambda>ok. if \<not> ok then emit [Log ERROR ''Environment validation failed''] else ?steps))"
  proof (rule guarded_and_then)
    show "guarded ?A ?B (validate_environment w)"
      by (rule guarded_quiet, rule emits_validate) simp_all
  next
    fix s x
    show "list_ex ?A (trace_of (validate_environment w s))
        \<or> guarded ?A ?B (if \<not> x then emit [Log ERROR ''Environment validation failed'']
             else ?steps)"
      using steps by (simp add: guarded_quiet emits_emit)
  qed
qed

text \<open>
  C7 (as amended). In every run of \<open>main\<close>: validation has completed before any task is
  spawned; the health server's site has been started before the handler is created (or
  its creation attempted); and the readiness flag is set only after the handler has been
  created. In \<open>create_app\<close> the initialisation is itself a task, scheduled before
  validation runs; after that, validation has completed before the metrics server, the
  handler or any other task is started, and the readiness flag is set only after the
  handler has been created.
\<close>

theorem startup_ordering:
  "precedes (\<lambda>e. e = SystemEvent ''environment_validation'') is_create_task
      (trace_of (main w))
   \<and> precedes is_site_start (\<lambda>e. e = NewTelegramHandler \<or> e = Failed NewTelegramHandler)
      (trace_of (main w))
   \<and> precedes (\<lambda>e. e = NewTelegramHandler) (\<lambda>e. e = ReadyFlagSet) (trace_of (main w))
   \<and> precedes (\<lambda>e. e = SystemEvent ''environment_validation'')
      (\<lambda>e. service_start e \<and> e \<noteq> CreateTask InitBotTask)
      (trace_of (fst (web_deployment w initial_globals)))
   \<and> precedes (\<lambda>e. e = NewTelegramHandler) (\<lambda>e. e = ReadyFlagSet)
      (trace_of (fst (web_deployment w initial_globals)))"
proof -
  have a: "precedes (\<lambda>e. e = SystemEvent ''environment_validation'') is_create_task
      (trace_of (main w))"
    by (rule guarded_main [OF validation_before_tasks]) (simp_all add: after_ready_excludes)
  have b: "precedes is_site_start (\<lambda>e. e = NewTelegramHandler \<or> e = Failed NewTelegramHandler)
      (trace_of (main w))"
    by (rule guarded_main [OF server_before_handler]) auto
  have c: "precedes (\<lambda>e. e = NewTelegramHandler) (\<lambda>e. e = ReadyFlagSet) (trace_of (main w))"
    by (rule guarded_main [OF handler_before_flag]) auto
  have d: "precedes (\<lambda>e. e = SystemEvent ''environment_validation'')
      (\<lambda>e. service_start e \<and> e \<noteq> CreateTask InitBotTask)
      (trace_of (fst (web_deployment w initial_globals)))"
    using guardedD [OF init_bot_validation_first, of w "new_bot w"]
    by (simp add: web_deployment_first triple_views)
  have e: "precedes (\<lambda>e. e = NewTelegramHandler) (\<lambda>e. e = ReadyFlagSet)
      (trace_of (fst (web_deployment w initial_globals)))"
    using guardedD [OF init_bot_handler_before_flag, of w "new_bot w"]
    by (simp add: web_deployment_first triple_views)
  from a b c d e show ?thesis by simp
qed

text \<open>
  The module served through \<open>create_app\<close> with a valid configuration: the initialisation
  task is spawned before validation has run.
\<close>

theorem task_before_validation_counterexample:
  "\<not> precedes (\<lambda>e. e = SystemEvent ''environment_validation'') is_create_task
       (trace_of (fst (web_deployment calm initial_globals)))"
  by (simp add: web_deployment_first triple_views)

subsection \<open>Exit status\<close>

lemma create_app_outside_loop:
  "flow_of (create_app w False initial_globals) = Raise (RuntimeError ''no running event loop'')"
  by (simp add: create_app_def initial_globals_def asyncio_create_task_def action_defs
      TradingBot_def Let_def)

text \<open>
  Whenever \<open>main\<close> returns, the module body goes on to \<open>app = create_app()\<close> outside any
  event loop, and the script ends with status 1.
\<close>

lemma returned_main_exits_one:
  assumes "flow_of (main w) = Return ()"
  shows "snd (script w) = Exited 1"
proof -
  obtain s t where m: "main w = (s, t, Return ())"
    using assms by (cases "main w") (simp add: flow_of_def)
  obtain g t' where c: "create_app w False initial_globals
      = (g, t', Raise (RuntimeError ''no running event loop''))"
    using create_app_outside_loop [of w]
    by (cases "create_app w False initial_globals") (simp add: flow_of_def)
  show ?thesis by (simp add: script_def module_tail_def m c)
qed

text \<open>A crash of the \<open>try\<close> body with an exception of class \<open>Exception\<close> ends in status 1.\<close>

lemma crash_exits_one:
  assumes "flow_of (main_try w (new_bot w)) = Raise e" and "is_Exception e"
    and "runner_cleanup w = None"
  shows "snd (script w) = Exited 1"
proof -
  let ?body = "try_except (main_try w) main_except"
  have h: "main_except e = Some (block [emit [Log ERROR ''Bot crashed'', SecurityEvent ''bot_crash''],
                        sys_exit 1])"
    using assms(2) by (auto simp: main_except_def)
  have "flow_of (?body (new_bot w)) = Raise (SystemExit 1)"
    by (simp add: try_except_flow assms(1) h and_then_flow basic_views)
  moreover have "flow_of (main_finally w (state_of (?body (new_bot w)))) = Return ()"
    by (rule main_finally_returns(1)) (simp add: assms(3))
  ultimately have "flow_of (main w) = Raise (SystemExit 1)"
    by (simp add: main_views main_from_def try_finally_flow)
  then show ?thesis by (rule script_exit)
qed

text \<open>
  C9, at the failing input. The script is started with a valid configuration, every
  startup call succeeds, and the handler's run loop is interrupted by the user
  (\<open>KeyboardInterrupt\<close>): \<open>main\<close> catches the interrupt and returns, and the process then
  exits with status 1, not 0.
\<close>

theorem interrupted_script_exit_status:
  "flow_of (main (calm\<lparr>handler_run := Fails KeyboardInterrupt\<rparr>)) = Return ()
   \<and> snd (script (calm\<lparr>handler_run := Fails KeyboardInterrupt\<rparr>)) = Exited 1"
proof -
  have "flow_of (main (calm\<lparr>handler_run := Fails KeyboardInterrupt\<rparr>)) = Return ()"
    by (simp add: action_defs program_defs calm_def)
  with returned_main_exits_one [OF this] show ?thesis by simp
qed

subsection \<open>The readiness flag\<close>

lemma at_most_onceD: "at_most_once e a \<Longrightarrow> count_list (trace_of (a s)) e \<le> 1"
  by (simp add: at_most_once_def)

lemma never_counts: "emits (\<lambda>x. x \<noteq> e) a \<Longrightarrow> count_list (trace_of (a s)) e = 0"
  by (auto simp: emits_def list_all_iff count_list_0_iff)

lemma once_quiet: "emits (\<lambda>x. x \<noteq> e) a \<Longrightarrow> at_most_once e a"
  by (simp add: at_most_once_def never_counts)

lemma once_mark_ready: "at_most_once e mark_ready"
  by (simp add: at_most_once_def mark_ready_def triple_views)

lemma once_and_then_later:
  "emits (\<lambda>x. x \<noteq> e) a \<Longrightarrow> (\<And>x. at_most_once e (f x)) \<Longrightarrow> at_most_once e (and_then a f)"
  by (auto simp: at_most_once_def and_then_trace never_counts split: flow.splits)

lemma once_and_then_first:
  "at_most_once e a \<Longrightarrow> (\<And>x. emits (\<lambda>x. x \<noteq> e) (f x)) \<Longrightarrow> at_most_once e (and_then a f)"
  by (auto simp: at_most_once_def and_then_trace never_counts split: flow.splits)

lemma once_block_later:
  "emits (\<lambda>x. x \<noteq> e) a \<Longrightarrow> at_most_once e (block as) \<Longrightarrow> at_most_once e (block (a # as))"
  by (simp add: once_and_then_later)

lemma once_block_first:
  "at_most_once e a \<Longrightarrow> emits (\<lambda>x. x \<noteq> e) (block as) \<Longrightarrow> at_most_once e (block (a # as))"
  by (simp add: once_and_then_first)

lemma once_block_append_later:
  "emits (\<lambda>x. x \<noteq> e) (block as) \<Longrightarrow> at_most_once e (block bs)
    \<Longrightarrow> at_most_once e (block (as @ bs))"
  by (simp add: block_append once_and_then_later)

lemma once_try_except:
  "at_most_once e body \<Longrightarrow> (\<And>x h. hs x = Some h \<Longrightarrow> emits (\<lambda>x. x \<noteq> e) h)
    \<Longrightarrow> at_most_once e (try_except body hs)"
  by (auto simp: at_most_once_def try_except_trace never_counts split: flow.splits option.splits)

lemma once_try_finally:
  "at_most_once e body \<Longrightarrow> emits (\<lambda>x. x \<noteq> e) fin \<Longrightarrow> at_most_once e (try_finally body fin)"
  by (auto simp: at_most_once_def try_finally_trace never_counts split: flow.splits)

lemma flag_once_main_try: "at_most_once ReadyFlagSet (main_try w)"
proof -
  let ?P = "\<lambda>x. x \<noteq> ReadyFlagSet"
  have ar: "after_ready e \<Longrightarrow> ?P e" for e by auto
  have split: "main_try w
      = block (([emit [Log INFO ''Starting AI Trading Bot...'', SystemEvent ''bot_startup''],
                 check_environment w] @ startup_steps w @ [await_preload w])
               @ mark_ready # serve_steps w)"
    by (simp add: main_try_def)
  have before: "emits ?P (block ([emit [Log INFO ''Starting AI Trading Bot...'',
        SystemEvent ''bot_startup''], check_environment w] @ startup_steps w @ [await_preload w]))"
    by (intro emits_block_Cons emits_block_append emits_block_Nil emits_emit
        emits_check_environment emits_validate emits_startup_steps emits_start_health_server
        emits_await_preload) simp_all
  have after: "at_most_once ReadyFlagSet (block (mark_ready # serve_steps w))"
    by (rule once_block_first [OF once_mark_ready])
      (rule emits_mono [OF emits_serve_steps], rule ar)
  show ?thesis
    unfolding split by (rule once_block_append_later [OF before after])
qed

lemma flag_once_main_from: "at_most_once ReadyFlagSet (main_from w)"
proof -
  have ar: "after_ready e \<Longrightarrow> e \<noteq> ReadyFlagSet" for e by auto
  have handlers: "emits (\<lambda>x. x \<noteq> ReadyFlagSet) h" if "main_except e = Some h" for e h
    by (rule emits_mono [OF emits_main_except [OF that]]) (rule ar)
  have fin: "emits (\<lambda>x. x \<noteq> ReadyFlagSet) (main_finally w)"
    by (rule emits_mono [OF emits_main_finally]) (rule ar)
  show ?thesis
    unfolding main_from_def
    by (intro once_try_finally once_try_except flag_once_main_try fin) (rule handlers)
qed

lemma flag_once_init_bot: "at_most_once ReadyFlagSet (init_bot w)"
  unfolding init_bot_def
proof (rule once_try_except)
  show "emits (\<lambda>x. x \<noteq> ReadyFlagSet) h"
    if "(if is_Exception e then Some (emit [Log ERROR ''Bot initialization failed''])
         else None) = Some h" for e h
    using that by (auto split: if_splits intro!: emits_emit)
next
  let ?steps = "block
                 [call (StartMetricsServer 9090) (start_metrics_server w),
                  call SetupPeriodicCleanup (setup_periodic_cleanup w),
                  call NewTelegramHandler (new_telegram_handler w),
                  assign (\<lambda>self. self\<lparr>telegram_handler := Some TelegramHandler\<rparr>),
                  mark_ready,
                  call (SetReadyStatus True) (set_ready_status w),
                  emit [Log INFO ''Bot initialized successfully for web deployment''],
                  asyncio_create_task True HandlerRunTask]"
  have steps: "at_most_once ReadyFlagSet ?steps"
    apply (rule once_block_later)
    subgoal by (rule emits_call) simp_all
    apply (rule once_block_later)
    subgoal by (rule emits_call) simp_all
    apply (rule once_block_later)
    subgoal by (rule emits_call) simp_all
    apply (rule once_block_later)
    subgoal by (rule emits_assign)
    apply (rule once_block_first [OF once_mark_ready])
    apply (unfold asyncio_create_task_def)
    apply (intro emits_block_Cons emits_block_Nil emits_call emits_emit)
    apply simp_all
    done
  show "at_most_once ReadyFlagSet (and_then (validate_environment w)
     (\<lambda>ok. if \<not> ok then emit [Log ERROR ''Environment validation failed''] else ?steps))"
  proof (rule once_and_then_later)
    show "emits (\<lambda>x. x \<noteq> ReadyFlagSet) (validate_environment w)"
      by (rule emits_validate) simp_all
  next
    fix ok
    show "at_most_once ReadyFlagSet
        (if \<not> ok then emit [Log ERROR ''Environment validation failed''] else ?steps)"
    proof (cases ok)
      case True
      with steps show ?thesis by (simp only: not_True_eq_False if_False)
    next
      case False
      then show ?thesis by (simp add: once_quiet emits_emit)
    qed
  qed
qed

text \<open>
  C10. The readiness flag of a bot starts false; every operation on the bot keeps it
  true once it is true (validation, the start of the health server, the signal handler,
  \<open>main\<close> with its crash handling and shutdown, and the initialisation task of
  \<open>create_app\<close>); a run sets it at most once; and once a run has set it, the flag is still
  true in the state that the run leaves behind, after shutdown.
\<close>

theorem readiness_flag_monotone:
  "\<not> is_ready (fst TradingBot) \<and> \<not> is_ready (new_bot w)
   \<and> (is_ready s \<longrightarrow> is_ready (state_of (validate_environment w s)))
   \<and> (is_ready s \<longrightarrow> is_ready (state_of (start_health_server w s)))
   \<and> (is_ready s \<longrightarrow> is_ready (state_of (signal_handler s)))
   \<and> (is_ready s \<longrightarrow> is_ready (state_of (main_from w s)))
   \<and> (is_ready s \<longrightarrow> is_ready (state_of (init_bot w s)))
   \<and> (ReadyFlagSet \<in> set (trace_of (main w)) \<longrightarrow> is_ready (state_of (main w)))
   \<and> (ReadyFlagSet \<in> set (trace_of (init_bot w s)) \<longrightarrow> is_ready (state_of (init_bot w s)))
   \<and> count_list (trace_of (main w)) ReadyFlagSet \<le> 1
   \<and> count_list (trace_of (init_bot w s)) ReadyFlagSet \<le> 1"
proof -
  have a: "\<not> is_ready (fst TradingBot) \<and> \<not> is_ready (new_bot w)"
    by (simp add: TradingBot_def new_bot_def)
  have b: "is_ready s \<longrightarrow> is_ready (state_of (validate_environment w s))"
    using tracksD [OF tracks_validate, of s w] by blast
  have c: "is_ready s \<longrightarrow> is_ready (state_of (start_health_server w s))"
    using tracksD [OF tracks_start_health_server, of s w] by blast
  have d: "is_ready s \<longrightarrow> is_ready (state_of (signal_handler s))"
    using tracksD [OF tracks_signal_handler, of s] by blast
  have e: "is_ready s \<longrightarrow> is_ready (state_of (main_from w s))"
    using tracksD [OF tracks_main_from, of s w] by blast
  have f: "is_ready s \<longrightarrow> is_ready (state_of (init_bot w s))"
    using tracksD [OF tracks_init_bot, of s w] by blast
  have g: "ReadyFlagSet \<in> set (trace_of (main w)) \<longrightarrow> is_ready (state_of (main w))"
    using tracksD [OF tracks_main_from, of "new_bot w" w]
    by (auto simp: main_views TradingBot_def)
  have h: "ReadyFlagSet \<in> set (trace_of (init_bot w s)) \<longrightarrow> is_ready (state_of (init_bot w s))"
    using tracksD [OF tracks_init_bot, of s w] by blast
  have i: "count_list (trace_of (main w)) ReadyFlagSet \<le> 1"
    using at_most_onceD [OF flag_once_main_from, of w "new_bot w"]
    by (simp add: main_views TradingBot_def)
  have j: "count_list (trace_of (init_bot w s)) ReadyFlagSet \<le> 1"
    by (rule at_most_onceD [OF flag_once_init_bot])
  from a b c d e f g h i j show ?thesis by blast
qed

theorem readiness_flag_monotone_witness:
  "ReadyFlagSet \<in> set (trace_of (main (calm\<lparr>handler_run := Fails OSError\<rparr>)))
   \<and> flow_of (main (calm\<lparr>handler_run := Fails OSError\<rparr>)) = Raise (SystemExit 1)
   \<and> is_ready (state_of (main (calm\<lparr>handler_run := Fails OSError\<rparr>)))
   \<and> is_ready (state_of (main_from calm ((new_bot calm)\<lparr>is_ready := True\<rparr>)))"
proof -
  let ?w = "calm\<lparr>handler_run := Fails OSError\<rparr>"
  have t: "ReadyFlagSet \<in> set (trace_of (main ?w))"
    and r: "flow_of (main ?w) = Raise (SystemExit 1)"
    by (simp_all add: action_defs program_defs calm_def)
  have s: "is_ready ((new_bot calm)\<lparr>is_ready := True\<rparr>)" by simp
  from readiness_flag_monotone [of ?w "(new_bot calm)\<lparr>is_ready := True\<rparr>"] t
  have 1: "is_ready (state_of (main ?w))" by blast
  from readiness_flag_monotone [of calm "(new_bot calm)\<lparr>is_ready := True\<rparr>"] s
  have 2: "is_ready (state_of (main_from calm ((new_bot calm)\<lparr>is_ready := True\<rparr>)))" by blast
  from t r 1 2 show ?thesis by simp
qed


end
